theory Spec2Isabelle
  imports Complex_Main "HOL-Library.Word"
begin

section \<open>JavaScript strings\<close>

text \<open>
  A JavaScript string is a sequence of 16-bit UTF-16 code units; \<open>length\<close>,
  \<open>substring\<close>, \<open>trim\<close> and a regular expression without the \<open>u\<close> flag all work
  on code units. Literals of the source are ASCII and are written with \<open>js\<close>.
\<close>

type_synonym code_unit = "16 word"
type_synonym jsstring = "code_unit list"

definition cu :: "char \<Rightarrow> code_unit" where
  "cu c = of_char c"

definition js :: "string \<Rightarrow> jsstring" where
  "js s = map cu s"

definition isWhiteSpace :: "code_unit \<Rightarrow> bool" where
  \<comment> \<open>The class \<open>\s\<close> of a regular expression, which is also what \<open>trim\<close> strips:
      WhiteSpace and LineTerminator of ECMAScript.\<close>
  "isWhiteSpace c \<longleftrightarrow>
     c = 0x0009 \<or> c = 0x000A \<or> c = 0x000B \<or> c = 0x000C \<or> c = 0x000D \<or> c = 0x0020 \<or>
     c = 0x00A0 \<or> c = 0x1680 \<or> (0x2000 \<le> c \<and> c \<le> 0x200A) \<or> c = 0x2028 \<or> c = 0x2029 \<or>
     c = 0x202F \<or> c = 0x205F \<or> c = 0x3000 \<or> c = 0xFEFF"

section \<open>The regular expressions of the extractor\<close>

text \<open>
  The four patterns of the source are sequences of three kinds of items: one code unit
  of a class, a greedy star over a class (\<open>[^>]*\<close>, and the tail of \<open>\s+\<close>) and a lazy
  star over a class (\<open>[\s\S]*?\<close>). \<open>rx_match\<close> is the backtracking matcher of
  ECMAScript on that fragment: it tries the alternatives in priority order (a greedy
  star takes one more code unit first, a lazy star tries the rest of the pattern first)
  and returns what is left of the input after the first match found, \<open>None\<close> when the
  pattern does not match at the start of the input.
\<close>

datatype rx_item =
    One "code_unit \<Rightarrow> bool"
  | Greedy "code_unit \<Rightarrow> bool"
  | Lazy "code_unit \<Rightarrow> bool"

fun rx_match :: "rx_item list \<Rightarrow> jsstring \<Rightarrow> jsstring option" where
  "rx_match [] s = Some s"
| "rx_match (One p # r) [] = None"
| "rx_match (One p # r) (c # cs) = (if p c then rx_match r cs else None)"
| "rx_match (Greedy p # r) [] = rx_match r []"
| "rx_match (Greedy p # r) (c # cs) =
     (if p c then
        (case rx_match (Greedy p # r) cs of
           Some rest \<Rightarrow> Some rest
         | None \<Rightarrow> rx_match r (c # cs))
      else rx_match r (c # cs))"
| "rx_match (Lazy p # r) [] = rx_match r []"
| "rx_match (Lazy p # r) (c # cs) =
     (case rx_match r (c # cs) of
        Some rest \<Rightarrow> Some rest
      | None \<Rightarrow> (if p c then rx_match (Lazy p # r) cs else None))"

text \<open>
  \<open>String.prototype.replace\<close> with a global pattern: scan from the left, at each
  position take the match if there is one, put the replacement for it and go on
  behind it; otherwise copy one code unit. After an empty match the scan advances by one
  code unit, which is copied.
\<close>

function replace_g :: "rx_item list \<Rightarrow> jsstring \<Rightarrow> jsstring \<Rightarrow> jsstring" where
  "replace_g re rep [] = (case rx_match re [] of Some rest \<Rightarrow> rep | None \<Rightarrow> [])"
| "replace_g re rep (c # cs) =
     (case rx_match re (c # cs) of
        Some rest \<Rightarrow>
          (if length rest < Suc (length cs) then rep @ replace_g re rep rest
           else rep @ c # replace_g re rep cs)
      | None \<Rightarrow> c # replace_g re rep cs)"
  by pat_completeness auto
termination
  by (relation "measure (\<lambda>(re, rep, s). length s)") auto

definition lit :: "char \<Rightarrow> rx_item" where
  \<comment> \<open>a pattern character that is not a letter: it matches itself only\<close>
  "lit a = One (\<lambda>c. c = cu a)"

definition ci :: "char \<Rightarrow> char \<Rightarrow> rx_item" where
  \<comment> \<open>a lower-case ASCII letter of a pattern with the \<open>i\<close> flag, given with its upper-case
      form: without the \<open>u\<close> flag a code unit above 127 is never folded onto an ASCII
      letter, so exactly the two ASCII forms match\<close>
  "ci a A = One (\<lambda>c. c = cu a \<or> c = cu A)"

definition any_cu :: "code_unit \<Rightarrow> bool" where
  \<comment> \<open>\<open>[\s\S]\<close>\<close>
  "any_cu c \<longleftrightarrow> isWhiteSpace c \<or> \<not> isWhiteSpace c"

definition not_gt :: "code_unit \<Rightarrow> bool" where
  \<comment> \<open>\<open>[^>]\<close>\<close>
  "not_gt c \<longleftrightarrow> c \<noteq> cu CHR ''>''"

definition script_re :: "rx_item list" where
  \<comment> \<open>\<open>/<script[^>]*>[\s\S]*?<\/script>/gi\<close>\<close>
  "script_re =
     [lit CHR ''<'', ci CHR ''s'' CHR ''S'', ci CHR ''c'' CHR ''C'', ci CHR ''r'' CHR ''R'',
      ci CHR ''i'' CHR ''I'', ci CHR ''p'' CHR ''P'', ci CHR ''t'' CHR ''T'',
      Greedy not_gt, lit CHR ''>'', Lazy any_cu,
      lit CHR ''<'', lit CHR ''/'', ci CHR ''s'' CHR ''S'', ci CHR ''c'' CHR ''C'',
      ci CHR ''r'' CHR ''R'', ci CHR ''i'' CHR ''I'', ci CHR ''p'' CHR ''P'',
      ci CHR ''t'' CHR ''T'', lit CHR ''>'']"

definition style_re :: "rx_item list" where
  \<comment> \<open>\<open>/<style[^>]*>[\s\S]*?<\/style>/gi\<close>\<close>
  "style_re =
     [lit CHR ''<'', ci CHR ''s'' CHR ''S'', ci CHR ''t'' CHR ''T'', ci CHR ''y'' CHR ''Y'',
      ci CHR ''l'' CHR ''L'', ci CHR ''e'' CHR ''E'',
      Greedy not_gt, lit CHR ''>'', Lazy any_cu,
      lit CHR ''<'', lit CHR ''/'', ci CHR ''s'' CHR ''S'', ci CHR ''t'' CHR ''T'',
      ci CHR ''y'' CHR ''Y'', ci CHR ''l'' CHR ''L'', ci CHR ''e'' CHR ''E'', lit CHR ''>'']"

definition tag_re :: "rx_item list" where
  \<comment> \<open>\<open>/<[^>]*>/g\<close>\<close>
  "tag_re = [lit CHR ''<'', Greedy not_gt, lit CHR ''>'']"

definition ws_re :: "rx_item list" where
  \<comment> \<open>\<open>/\s+/g\<close>\<close>
  "ws_re = [One isWhiteSpace, Greedy isWhiteSpace]"

definition trim :: "jsstring \<Rightarrow> jsstring" where
  "trim s = rev (dropWhile isWhiteSpace (rev (dropWhile isWhiteSpace s)))"

definition substring :: "jsstring \<Rightarrow> nat \<Rightarrow> nat \<Rightarrow> jsstring" where
  \<comment> \<open>both indices are clamped to the length, and swapped when the first is the larger\<close>
  "substring s a b =
     (let x = min a (length s); y = min b (length s)
      in take (max x y - min x y) (drop (min x y) s))"

definition extractText :: "jsstring \<Rightarrow> jsstring" where
  \<comment> \<open>the expression assigned to \<open>scrapedText\<close>, the same in both functions\<close>
  "extractText html =
     substring
       (trim
         (replace_g ws_re (js '' '')
           (replace_g tag_re []
             (replace_g style_re []
               (replace_g script_re [] html)))))
       0 8000"

section \<open>The extractor as the specification describes it\<close>

text \<open>
  The specification gives the extractor as six steps. They are written here as
  scanners over the text, without regular expressions: a block opens with \<open><script\<close>
  (or \<open><style\<close>) in any mix of cases, runs over its attributes to the next \<open>>\<close> and ends
  with the nearest closing tag behind that; a tag runs from a \<open><\<close> to the next \<open>>\<close>; a run
  of whitespace becomes one space. \<open>spec_extract\<close> composes the steps in the order of
  the specification and is compared with \<open>extractText\<close> below.
\<close>

definition ascii_lower :: "code_unit \<Rightarrow> code_unit" where
  "ascii_lower c = (if 0x41 \<le> c \<and> c \<le> 0x5A then c + 0x20 else c)"

fun strip_prefix_ci :: "string \<Rightarrow> jsstring \<Rightarrow> jsstring option" where
  "strip_prefix_ci [] s = Some s"
| "strip_prefix_ci (a # as) [] = None"
| "strip_prefix_ci (a # as) (c # cs) =
     (if ascii_lower c = cu a then strip_prefix_ci as cs else None)"

fun after_close :: "string \<Rightarrow> jsstring \<Rightarrow> jsstring option" where
  "after_close nm [] = None"
| "after_close nm (c # cs) =
     (case strip_prefix_ci (''</'' @ nm @ ''>'') (c # cs) of
        Some rest \<Rightarrow> Some rest
      | None \<Rightarrow> after_close nm cs)"

definition block_at :: "string \<Rightarrow> jsstring \<Rightarrow> jsstring option" where
  "block_at nm s =
     (case strip_prefix_ci (''<'' @ nm) s of
        None \<Rightarrow> None
      | Some r \<Rightarrow>
          (case dropWhile (\<lambda>c. c \<noteq> cu CHR ''>'') r of
             [] \<Rightarrow> None
           | g # inner \<Rightarrow> after_close nm inner))"

lemma strip_prefix_ci_length:
  "strip_prefix_ci p s = Some r \<Longrightarrow> length r + length p = length s"
  by (induction p s rule: strip_prefix_ci.induct) (auto split: if_splits)

lemma after_close_length:
  "after_close nm s = Some r \<Longrightarrow> length r < length s"
  by (induction nm s rule: after_close.induct)
     (auto split: option.splits if_splits dest!: strip_prefix_ci_length)

lemma block_at_length: "block_at nm s = Some r \<Longrightarrow> length r < length s"
proof -
  assume a: "block_at nm s = Some r"
  then obtain r1 where r1: "strip_prefix_ci (''<'' @ nm) s = Some r1"
    by (auto simp: block_at_def split: option.splits)
  with a obtain g inner where d: "dropWhile (\<lambda>c. c \<noteq> cu CHR ''>'') r1 = g # inner"
    and b: "after_close nm inner = Some r"
    by (auto simp: block_at_def split: option.splits list.splits)
  have "length (dropWhile (\<lambda>c. c \<noteq> cu CHR ''>'') r1) \<le> length r1"
    by (rule length_dropWhile_le)
  with d have "length inner < length r1" by simp
  moreover from b have "length r < length inner" by (rule after_close_length)
  moreover from r1 have "length r1 \<le> length s" by (auto dest: strip_prefix_ci_length)
  ultimately show ?thesis by simp
qed

function remove_blocks :: "string \<Rightarrow> jsstring \<Rightarrow> jsstring" where
  "remove_blocks nm [] = []"
| "remove_blocks nm (c # cs) =
     (case block_at nm (c # cs) of
        Some rest \<Rightarrow> remove_blocks nm rest
      | None \<Rightarrow> c # remove_blocks nm cs)"
  by pat_completeness auto
termination
  by (relation "measure (\<lambda>(nm, s). length s)") (auto dest: block_at_length)

lemma length_tl_dropWhile: "length (dropWhile P xs) - Suc 0 < Suc (length xs)"
proof -
  have "length (dropWhile P xs) - Suc 0 \<le> length (dropWhile P xs)" by simp
  also have "\<dots> \<le> length xs" by (rule length_dropWhile_le)
  finally show ?thesis by simp
qed

function remove_tags :: "jsstring \<Rightarrow> jsstring" where
  "remove_tags [] = []"
| "remove_tags (c # cs) =
     (if c = cu CHR ''<'' \<and> cu CHR ''>'' \<in> set cs
      then remove_tags (tl (dropWhile (\<lambda>x. x \<noteq> cu CHR ''>'') cs))
      else c # remove_tags cs)"
  by pat_completeness auto
termination
  by (relation "measure length") (auto simp: length_tl_dropWhile)

function collapse_whitespace :: "jsstring \<Rightarrow> jsstring" where
  "collapse_whitespace [] = []"
| "collapse_whitespace (c # cs) =
     (if isWhiteSpace c then cu CHR '' '' # collapse_whitespace (dropWhile isWhiteSpace cs)
      else c # collapse_whitespace cs)"
  by pat_completeness auto
termination
  by (relation "measure length") (auto simp: less_Suc_eq_le length_dropWhile_le)

definition spec_extract :: "jsstring \<Rightarrow> jsstring" where
  "spec_extract html =
     take 8000 (trim (collapse_whitespace (remove_tags
       (remove_blocks ''style'' (remove_blocks ''script'' html)))))"



text \<open>
  What the specification promises of the result: it holds no tag (no \<open><\<close> with a \<open>>\<close>
  somewhere behind it) and no two whitespace characters in a row.
\<close>

fun has_tag :: "jsstring \<Rightarrow> bool" where
  "has_tag [] = False"
| "has_tag (c # cs) = ((c = cu CHR ''<'' \<and> cu CHR ''>'' \<in> set cs) \<or> has_tag cs)"

fun has_ws_run :: "jsstring \<Rightarrow> bool" where
  "has_ws_run (a # b # cs) = ((isWhiteSpace a \<and> isWhiteSpace b) \<or> has_ws_run (b # cs))"
| "has_ws_run [a] = False"
| "has_ws_run [] = False"

text \<open>The closing tags of the two block patterns, named for the proofs below.\<close>

definition close_script :: "rx_item list" where
  "close_script = [lit CHR ''<'', lit CHR ''/'', ci CHR ''s'' CHR ''S'', ci CHR ''c'' CHR ''C'',
      ci CHR ''r'' CHR ''R'', ci CHR ''i'' CHR ''I'', ci CHR ''p'' CHR ''P'',
      ci CHR ''t'' CHR ''T'', lit CHR ''>'']"

definition close_style :: "rx_item list" where
  "close_style = [lit CHR ''<'', lit CHR ''/'', ci CHR ''s'' CHR ''S'', ci CHR ''t'' CHR ''T'',
      ci CHR ''y'' CHR ''Y'', ci CHR ''l'' CHR ''L'', ci CHR ''e'' CHR ''E'', lit CHR ''>'']"

section \<open>JSON values\<close>

text \<open>
  The values the two functions handle: what \<open>JSON.parse\<close> yields for a request body
  or for a reply of the completion service, \<open>undefined\<close> for a property that is not
  there, and the objects the functions build. A number is a rational; a JSON literal
  beyond the range of a double parses to an infinity, which is truthy like every number
  but zero, and JSON has no NaN. An object is the list of its properties.

  \<open>truthy\<close> is the test of \<open>!v\<close> and \<open>v || w\<close>. \<open>js_get v k\<close> is \<open>v.k\<close> for a value that is
  neither null nor undefined: none of the names the functions read is an inherited
  property, so it is undefined unless \<open>v\<close> is an object that holds it. \<open>index0 v\<close> is
  \<open>v[0]\<close>, and \<open>js_get_opt v k\<close> is \<open>v?.k\<close>. Reading a property of null or undefined
  throws; the functions below say so where the source does it. \<open>dec\<close> prints a status
  code the way a template literal does.
\<close>

datatype jsval =
    Undefined
  | Null
  | Bool bool
  | Num rat
  | Str jsstring
  | Arr "jsval list"
  | Obj "(jsstring \<times> jsval) list"

fun truthy :: "jsval \<Rightarrow> bool" where
  "truthy Undefined = False"
| "truthy Null = False"
| "truthy (Bool b) = b"
| "truthy (Num n) = (n \<noteq> 0)"
| "truthy (Str s) = (s \<noteq> [])"
| "truthy (Arr xs) = True"
| "truthy (Obj kvs) = True"

fun js_get :: "jsval \<Rightarrow> string \<Rightarrow> jsval" where
  "js_get (Obj kvs) k = (case map_of kvs (js k) of Some v \<Rightarrow> v | None \<Rightarrow> Undefined)"
| "js_get v k = Undefined"

fun index0 :: "jsval \<Rightarrow> jsval" where
  "index0 (Arr xs) = (case xs of [] \<Rightarrow> Undefined | x # rest \<Rightarrow> x)"
| "index0 (Str s) = (case s of [] \<Rightarrow> Undefined | c # rest \<Rightarrow> Str [c])"
| "index0 (Obj kvs) = (case map_of kvs (js ''0'') of Some v \<Rightarrow> v | None \<Rightarrow> Undefined)"
| "index0 v = Undefined"

definition nullish :: "jsval \<Rightarrow> bool" where
  "nullish v \<longleftrightarrow> v = Undefined \<or> v = Null"

definition js_get_opt :: "jsval \<Rightarrow> string \<Rightarrow> jsval" where
  "js_get_opt v k = (if nullish v then Undefined else js_get v k)"

function dec :: "nat \<Rightarrow> jsstring" where
  "dec n = (if n < 10 then [of_nat (48 + n)] else dec (n div 10) @ [of_nat (48 + n mod 10)])"
  by pat_completeness auto
termination
  by (relation "measure id") auto

declare dec.simps [simp del]

section \<open>The store\<close>

text \<open>
  The rows have the columns of \<open>deploy-schema.sql\<close>: \<open>id\<close> is a BIGINT, \<open>url\<close>,
  \<open>prompt_name\<close> and \<open>prompt\<close> are TEXT NOT NULL, the other columns may be null.
  The store is its three tables. An error of the store client has a message, a code and
  possibly a hint.
\<close>

record url_row =
  u_id :: int
  u_created_at :: jsstring
  u_url :: jsstring
  u_caption :: "jsstring option"

record prompt_row =
  p_id :: int
  p_created_at :: jsstring
  p_prompt_name :: jsstring
  p_prompt :: jsstring
  p_description :: "jsstring option"

record summery_row =
  s_id :: int
  s_created_at :: jsstring
  s_url_id :: "int option"
  s_prompt_id :: "int option"
  s_scraped_data :: "jsstring option"
  s_ai_response :: "jsstring option"

record store =
  urls :: "url_row list"
  prompts :: "prompt_row list"
  url_summery :: "summery_row list"

record pg_error =
  pg_message :: jsstring
  pg_code :: jsstring
  pg_hint :: "jsstring option"

section \<open>The outside world\<close>

text \<open>
  All that a function gets from outside is a field of \<open>env\<close>: the clock, the conversion
  of a value that is not a string inside a template literal, the message of an error
  the engine throws, the variable \<open>OPENAI_API_KEY\<close>, the answer of the fetched site
  (\<open>Inl\<close> when \<open>fetch\<close> rejects), the answer of the completion service, and the store's
  side of each query. The platform always provides the address and the key of the store,
  so creating the client does not throw.

  \<open>select_single\<close> is \<open>.select('*').eq('id', v).single()\<close>: \<open>key_of\<close> is the store's
  reading of the filter value as a key (\<open>None\<close> when it rejects the value or the query
  fails), and the result is the row when exactly one row has that key, an error
  otherwise. \<open>insert_urls\<close> and \<open>insert_url_summery\<close> are the store's answer to
  \<open>.insert(row).select().single()\<close>: the row it created, with the identifier, the
  timestamp and the column values it chose, or its error. The client answers with data
  or with an error, never both; a row is an object and so truthy, which is why the test
  \<open>!urlData\<close> of \<open>process-url\<close>, placed behind the two error tests, has no branch
  here.

  An \<open>effect\<close> is a call to the store, to the network or to \<open>console.error\<close>; a run
  returns the list of its effects in order (\<open>console.log\<close> is left out). A \<open>request\<close> is
  the method and the outcome of \<open>req.json()\<close>, \<open>Inl\<close> with the message when the body
  is not JSON. The \<open>body\<close> of a \<open>response\<close> is the object given to \<open>JSON.stringify\<close>,
  \<open>None\<close> for the null body; every property the functions put there has a defined
  value, so none is dropped in the serialisation. A response built without a status has
  status 200.
\<close>

record http_reply =
  reply_status :: nat
  reply_statusText :: jsstring
  reply_text :: "jsstring + jsstring"
  reply_json :: "jsstring + jsval"

definition reply_ok :: "http_reply \<Rightarrow> bool" where
  "reply_ok r \<longleftrightarrow> 200 \<le> reply_status r \<and> reply_status r \<le> 299"

record chat_message =
  role :: jsstring
  content :: jsstring

record chat_request =
  model :: jsstring
  messages :: "chat_message list"
  max_tokens :: nat
  temperature :: rat

datatype engine_fault = DestructureOfNull | ReadOfNullish

record env =
  now :: jsstring
  to_string :: "jsval \<Rightarrow> jsstring"
  engine_text :: "engine_fault \<Rightarrow> jsstring"
  openai_api_key :: "jsstring option"
  http_get :: "jsval \<Rightarrow> jsstring + http_reply"
  completion :: "jsstring \<Rightarrow> chat_request \<Rightarrow> jsstring + http_reply"
  key_of :: "jsval \<Rightarrow> int option"
  select_error :: "string \<Rightarrow> jsval \<Rightarrow> pg_error"
  insert_urls :: "jsval \<Rightarrow> pg_error + url_row"
  insert_url_summery :: "jsval \<Rightarrow> pg_error + summery_row"

datatype effect =
    StoreSelect string jsval
  | StoreInsert string jsval
  | HttpGet jsval
  | ChatCompletion jsstring chat_request
  | ConsoleError string

record request =
  req_method :: jsstring
  req_json :: "jsstring + jsval"

record response =
  status :: nat
  headers :: "(string \<times> string) list"
  body :: "jsval option"

definition select_single ::
  "env \<Rightarrow> string \<Rightarrow> ('r \<Rightarrow> int) \<Rightarrow> 'r list \<Rightarrow> jsval \<Rightarrow> pg_error + 'r" where
  "select_single e table row_id rows v =
     (case key_of e v of
        None \<Rightarrow> Inl (select_error e table v)
      | Some k \<Rightarrow>
          (case filter (\<lambda>r. row_id r = k) rows of
             [r] \<Rightarrow> Inr r
           | _ \<Rightarrow> Inl (select_error e table v)))"

definition template :: "env \<Rightarrow> jsval \<Rightarrow> jsstring" where
  "template e v = (case v of Str s \<Rightarrow> s | _ \<Rightarrow> to_string e v)"

definition or_null :: "jsval \<Rightarrow> jsval" where
  "or_null v = (if truthy v then v else Null)"

definition opt_str :: "jsstring option \<Rightarrow> jsval" where
  "opt_str s = (case s of None \<Rightarrow> Null | Some t \<Rightarrow> Str t)"

definition preflight :: response where
  "preflight =
     \<lparr>status = 200,
      headers =
        [(''Access-Control-Allow-Origin'', ''*''),
         (''Access-Control-Allow-Methods'', ''POST, OPTIONS''),
         (''Access-Control-Allow-Headers'', ''authorization, x-client-info, apikey, content-type'')],
      body = None\<rparr>"

definition json_response :: "nat \<Rightarrow> (string \<times> jsval) list \<Rightarrow> response" where
  "json_response code kvs =
     \<lparr>status = code,
      headers = [(''Content-Type'', ''application/json''), (''Access-Control-Allow-Origin'', ''*'')],
      body = Some (Obj (map (\<lambda>(k, v). (js k, v)) kvs))\<rparr>"

section \<open>The steps both functions share\<close>

text \<open>
  \<open>scrape\<close> is the body of the inner \<open>try\<close> around the fetch of the page: its result
  is the message of the error caught, or \<open>scrapedText\<close>. \<open>chat_body\<close> is the JSON sent
  to the completion service. \<open>ask_chatgpt\<close> is the call and the reading of its reply,
  up to \<open>aiResponse\<close>; its \<open>Inl\<close> is the message of what the enclosing \<open>catch\<close>
  receives. \<open>configured_key\<close> is the test \<open>!openaiApiKey\<close>.
\<close>

definition scrape :: "env \<Rightarrow> jsval \<Rightarrow> jsstring + jsstring" where
  "scrape e url =
     (case http_get e url of
        Inl m \<Rightarrow> Inl m
      | Inr response \<Rightarrow>
          if \<not> reply_ok response
          then Inl (js ''HTTP '' @ dec (reply_status response) @ js '': '' @ reply_statusText response)
          else (case reply_text response of
                  Inl m \<Rightarrow> Inl m
                | Inr html \<Rightarrow> Inr (extractText html)))"

definition chat_body :: "jsstring \<Rightarrow> jsstring \<Rightarrow> jsstring \<Rightarrow> chat_request" where
  "chat_body finalPrompt url scrapedText =
     \<lparr>model = js ''gpt-3.5-turbo'',
      messages =
        [\<lparr>role = js ''user'',
          content = finalPrompt @ js [CHR 0x0A, CHR 0x0A] @ js ''Website URL: '' @ url @
                    js [CHR 0x0A] @ js ''Content: '' @ scrapedText\<rparr>],
      max_tokens = 500,
      temperature = 7 / 10\<rparr>"

definition first_choice_content :: "env \<Rightarrow> jsval \<Rightarrow> jsstring + jsval" where
  "first_choice_content e chatGptData =
     (if nullish chatGptData then Inl (engine_text e ReadOfNullish)
      else if nullish (js_get chatGptData ''choices'') then Inl (engine_text e ReadOfNullish)
      else Inr (js_get_opt (js_get_opt (index0 (js_get chatGptData ''choices'')) ''message'') ''content''))"

definition ask_chatgpt :: "env \<Rightarrow> jsstring \<Rightarrow> chat_request \<Rightarrow> jsstring + jsval" where
  "ask_chatgpt e openaiApiKey rq =
     (case completion e openaiApiKey rq of
        Inl m \<Rightarrow> Inl m
      | Inr chatGptResponse \<Rightarrow>
          if \<not> reply_ok chatGptResponse
          then (case reply_text chatGptResponse of
                  Inl m \<Rightarrow> Inl m
                | Inr errorData \<Rightarrow>
                    Inl (js ''ChatGPT API error: '' @ dec (reply_status chatGptResponse) @
                         js '' - '' @ errorData))
          else (case reply_json chatGptResponse of
                  Inl m \<Rightarrow> Inl m
                | Inr chatGptData \<Rightarrow>
                    (case first_choice_content e chatGptData of
                       Inl m \<Rightarrow> Inl m
                     | Inr c \<Rightarrow> Inr (if truthy c then c else Str (js ''No response generated'')))))"

definition configured_key :: "env \<Rightarrow> jsstring option" where
  "configured_key e =
     (case openai_api_key e of
        None \<Rightarrow> None
      | Some k \<Rightarrow> if k = [] then None else Some k)"

section \<open>summerize_url: save a URL, then analyse it\<close>

text \<open>
  \<open>summerize_saved\<close> is the inner \<open>try\<close> of the function, entered once the URL record
  is stored; \<open>summerize_url\<close> is the function. Each returns the response, the store
  and the effects.
\<close>

definition summerize_success ::
  "url_row \<Rightarrow> prompt_row \<Rightarrow> jsval \<Rightarrow> jsval \<Rightarrow> response" where
  "summerize_success insertData promptData aiResponse summery_id =
     json_response 200
       [(''success'', Bool True),
        (''url_id'', Num (of_int (u_id insertData))),
        (''url'', Str (u_url insertData)),
        (''summary'', aiResponse),
        (''prompt_used'', Str (p_prompt_name promptData)),
        (''created_at'', Str (u_created_at insertData)),
        (''processed'', Bool True),
        (''summery_id'', summery_id)]"

definition summerize_saved ::
  "env \<Rightarrow> store \<Rightarrow> url_row \<Rightarrow> jsval \<Rightarrow> jsval \<Rightarrow> response \<times> store \<times> effect list" where
  "summerize_saved e st insertData url prompt_id =
     (case select_single e ''prompts'' p_id (prompts st) prompt_id of
        Inl promptError \<Rightarrow>
          (json_response 404
             [(''error'', Str (js ''Failed to fetch prompt from database'')),
              (''details'', Str (pg_message promptError)),
              (''url_id'', Num (of_int (u_id insertData)))],
           st,
           [StoreSelect ''prompts'' prompt_id, ConsoleError ''Prompt fetch error:''])
      | Inr promptData \<Rightarrow>
          (case scrape e url of
             Inl scrapeError \<Rightarrow>
               (json_response 500
                  [(''error'', Str (js ''Failed to scrape URL content'')),
                   (''details'', Str scrapeError),
                   (''url_id'', Num (of_int (u_id insertData)))],
                st,
                [StoreSelect ''prompts'' prompt_id, HttpGet url, ConsoleError ''Scraping error:''])
           | Inr scrapedText \<Rightarrow>
               (case configured_key e of
                  None \<Rightarrow>
                    (json_response 500
                       [(''error'', Str (js ''OpenAI API key not configured'')),
                        (''url_id'', Num (of_int (u_id insertData)))],
                     st,
                     [StoreSelect ''prompts'' prompt_id, HttpGet url])
                | Some openaiApiKey \<Rightarrow>
                    (let rq = chat_body (p_prompt promptData) (template e url) scrapedText in
                     case ask_chatgpt e openaiApiKey rq of
                       Inl aiError \<Rightarrow>
                         (json_response 500
                            [(''error'', Str (js ''URL saved but AI processing failed'')),
                             (''details'', Str aiError),
                             (''url_id'', Num (of_int (u_id insertData))),
                             (''url'', Str (u_url insertData)),
                             (''created_at'', Str (u_created_at insertData)),
                             (''processed'', Bool False)],
                          st,
                          [StoreSelect ''prompts'' prompt_id, HttpGet url,
                           ChatCompletion openaiApiKey rq, ConsoleError ''AI processing error:''])
                     | Inr aiResponse \<Rightarrow>
                         (let row = Obj
                            [(js ''url_id'', Num (of_int (u_id insertData))),
                             (js ''prompt_id'', prompt_id),
                             (js ''scraped_data'', Str scrapedText),
                             (js ''ai_response'', aiResponse)] in
                          case insert_url_summery e row of
                            Inl summeryError \<Rightarrow>
                              (summerize_success insertData promptData aiResponse Null,
                               st,
                               [StoreSelect ''prompts'' prompt_id, HttpGet url,
                                ChatCompletion openaiApiKey rq, StoreInsert ''url_summery'' row,
                                ConsoleError ''Failed to save to url_summery:''])
                          | Inr summeryData \<Rightarrow>
                              (summerize_success insertData promptData aiResponse
                                 (or_null (Num (of_int (s_id summeryData)))),
                               st\<lparr>url_summery := url_summery st @ [summeryData]\<rparr>,
                               [StoreSelect ''prompts'' prompt_id, HttpGet url,
                                ChatCompletion openaiApiKey rq,
                                StoreInsert ''url_summery'' row]))))))"

definition summerize_url :: "env \<Rightarrow> store \<Rightarrow> request \<Rightarrow> response \<times> store \<times> effect list" where
  "summerize_url e st req =
     (if req_method req = js ''OPTIONS'' then (preflight, st, [])
      else
        (case req_json req of
           Inl m \<Rightarrow> (json_response 400 [(''error'', Str (js ''Invalid request body''))], st, [])
         | Inr b \<Rightarrow>
             if nullish b
             then (json_response 400 [(''error'', Str (js ''Invalid request body''))], st, [])
             else
               (let url = js_get b ''url''; prompt_id = js_get b ''prompt_id'' in
                if \<not> truthy url
                then (json_response 400 [(''error'', Str (js ''URL is required''))], st, [])
                else if \<not> truthy prompt_id
                then (json_response 400 [(''error'', Str (js ''prompt_id is required''))], st, [])
                else
                  (let row = Obj [(js ''url'', url),
                                  (js ''caption'', Str (js ''URL added at '' @ now e))] in
                   case insert_urls e row of
                     Inl insertError \<Rightarrow>
                       (json_response 500
                          [(''error'', Str (js ''Failed to save URL to database'')),
                           (''details'', Str (pg_message insertError)),
                           (''code'', Str (pg_code insertError)),
                           (''hint'', opt_str (pg_hint insertError))],
                        st,
                        [StoreInsert ''urls'' row, ConsoleError ''Database insert error:''])
                   | Inr insertData \<Rightarrow>
                       (case summerize_saved e (st\<lparr>urls := urls st @ [insertData]\<rparr>)
                               insertData url prompt_id of
                          (r, st', tr) \<Rightarrow> (r, st', StoreInsert ''urls'' row # tr))))))"

section \<open>process-url: analyse a URL of the store\<close>

text \<open>
  \<open>process_found\<close> is the function from the scraping on, entered once the URL record
  and the prompt are read; \<open>process_url\<close> is the function.
\<close>

definition process_success ::
  "jsval \<Rightarrow> url_row \<Rightarrow> prompt_row \<Rightarrow> jsstring \<Rightarrow> jsval \<Rightarrow> jsval \<Rightarrow> response" where
  "process_success url_id urlData promptData scrapedText aiResponse summery_id =
     json_response 200
       [(''success'', Bool True),
        (''url_id'', url_id),
        (''url'', Str (u_url urlData)),
        (''original_caption'', opt_str (u_caption urlData)),
        (''scraped_text_length'', Num (of_nat (length scrapedText))),
        (''ai_response'', aiResponse),
        (''prompt_used'', Str (p_prompt promptData)),
        (''prompt_name'', Str (p_prompt_name promptData)),
        (''model'', Str (js ''gpt-3.5-turbo'')),
        (''summery_id'', summery_id)]"

definition process_found ::
  "env \<Rightarrow> store \<Rightarrow> jsval \<Rightarrow> jsval \<Rightarrow> url_row \<Rightarrow> prompt_row \<Rightarrow>
     response \<times> store \<times> effect list" where
  "process_found e st url_id prompt_id urlData promptData =
     (case scrape e (Str (u_url urlData)) of
        Inl scrapeError \<Rightarrow>
          (json_response 500
             [(''error'', Str (js ''Failed to scrape URL content'')),
              (''details'', Str scrapeError)],
           st,
           [HttpGet (Str (u_url urlData)), ConsoleError ''Scraping error:''])
      | Inr scrapedText \<Rightarrow>
          (case configured_key e of
             None \<Rightarrow>
               (json_response 500 [(''error'', Str (js ''OpenAI API key not configured''))],
                st,
                [HttpGet (Str (u_url urlData))])
           | Some openaiApiKey \<Rightarrow>
               (let rq = chat_body (p_prompt promptData) (u_url urlData) scrapedText in
                case ask_chatgpt e openaiApiKey rq of
                  Inl aiError \<Rightarrow>
                    (json_response 500
                       [(''error'', Str (js ''Failed to get AI response'')),
                        (''details'', Str aiError)],
                     st,
                     [HttpGet (Str (u_url urlData)), ChatCompletion openaiApiKey rq,
                      ConsoleError ''ChatGPT API error:''])
                | Inr aiResponse \<Rightarrow>
                    (let row = Obj
                       [(js ''url_id'', url_id),
                        (js ''prompt_id'', prompt_id),
                        (js ''scraped_data'', Str scrapedText),
                        (js ''ai_response'', aiResponse)] in
                     case insert_url_summery e row of
                       Inl summeryError \<Rightarrow>
                         (process_success url_id urlData promptData scrapedText aiResponse Null,
                          st,
                          [HttpGet (Str (u_url urlData)), ChatCompletion openaiApiKey rq,
                           StoreInsert ''url_summery'' row,
                           ConsoleError ''Failed to save to url_summery:''])
                     | Inr summeryData \<Rightarrow>
                         (process_success url_id urlData promptData scrapedText aiResponse
                            (or_null (Num (of_int (s_id summeryData)))),
                          st\<lparr>url_summery := url_summery st @ [summeryData]\<rparr>,
                          [HttpGet (Str (u_url urlData)), ChatCompletion openaiApiKey rq,
                           StoreInsert ''url_summery'' row])))))"

definition process_url :: "env \<Rightarrow> store \<Rightarrow> request \<Rightarrow> response \<times> store \<times> effect list" where
  "process_url e st req =
     (if req_method req = js ''OPTIONS'' then (preflight, st, [])
      else
        (case req_json req of
           Inl m \<Rightarrow>
             (json_response 400
                [(''error'', Str (js ''Invalid request body or internal error'')),
                 (''details'', Str m)],
              st, [ConsoleError ''General error:''])
         | Inr b \<Rightarrow>
             if nullish b
             then (json_response 400
                     [(''error'', Str (js ''Invalid request body or internal error'')),
                      (''details'', Str (engine_text e DestructureOfNull))],
                   st, [ConsoleError ''General error:''])
             else
               (let url_id = js_get b ''url_id''; prompt_id = js_get b ''prompt_id'' in
                if \<not> truthy url_id
                then (json_response 400 [(''error'', Str (js ''url_id is required''))], st, [])
                else if \<not> truthy prompt_id
                then (json_response 400 [(''error'', Str (js ''prompt_id is required''))], st, [])
                else
                  (case select_single e ''urls'' u_id (urls st) url_id of
                     Inl fetchError \<Rightarrow>
                       (json_response 404
                          [(''error'', Str (js ''Failed to fetch URL from database'')),
                           (''details'', Str (pg_message fetchError))],
                        st,
                        [StoreSelect ''urls'' url_id, ConsoleError ''Database fetch error:''])
                   | Inr urlData \<Rightarrow>
                       (case select_single e ''prompts'' p_id (prompts st) prompt_id of
                          Inl promptError \<Rightarrow>
                            (json_response 404
                               [(''error'', Str (js ''Failed to fetch prompt from database'')),
                                (''details'', Str (pg_message promptError))],
                             st,
                             [StoreSelect ''urls'' url_id, StoreSelect ''prompts'' prompt_id,
                              ConsoleError ''Prompt fetch error:''])
                        | Inr promptData \<Rightarrow>
                            (case process_found e st url_id prompt_id urlData promptData of
                               (r, st', tr) \<Rightarrow>
                                 (r, st',
                                  StoreSelect ''urls'' url_id #
                                  StoreSelect ''prompts'' prompt_id # tr)))))))"

section \<open>Reading a response; a sample world\<close>

text \<open>
  \<open>body_field\<close> reads one property of the JSON body of a response, and
  \<open>without_field\<close> is a request with one property of its body left out. The sample
  store, page, completion reply and environment below are the concrete inputs at which
  the theorems are instantiated.
\<close>

definition body_field :: "response \<Rightarrow> string \<Rightarrow> jsval" where
  "body_field r k = (case body r of None \<Rightarrow> Undefined | Some v \<Rightarrow> js_get v k)"

definition without_field :: "string \<Rightarrow> request \<Rightarrow> request" where
  "without_field k req =
     req\<lparr>req_json :=
       (case req_json req of
          Inr (Obj kvs) \<Rightarrow> Inr (Obj (filter (\<lambda>kv. fst kv \<noteq> js k) kvs))
        | other \<Rightarrow> other)\<rparr>"

definition demo_store :: store where
  "demo_store =
     \<lparr>urls =
        [\<lparr>u_id = 1, u_created_at = js ''2024-01-01T00:00:00+00:00'',
          u_url = js ''https://example.com'', u_caption = Some (js ''Example'')\<rparr>],
      prompts =
        [\<lparr>p_id = 1, p_created_at = js ''2024-01-01T00:00:00+00:00'',
          p_prompt_name = js ''General Summary'', p_prompt = js ''Summarize this page.'',
          p_description = None\<rparr>],
      url_summery = []\<rparr>"

definition demo_page :: http_reply where
  "demo_page =
     \<lparr>reply_status = 200, reply_statusText = js ''OK'',
      reply_text = Inr (js ''<html><body><script>x</script>Hello <b>World</b></body></html>''),
      reply_json = Inl (js ''Unexpected token'')\<rparr>"

definition demo_completion :: "jsstring \<Rightarrow> http_reply" where
  "demo_completion text =
     \<lparr>reply_status = 200, reply_statusText = js ''OK'',
      reply_text = Inr [],
      reply_json = Inr (Obj [(js ''choices'',
        Arr [Obj [(js ''message'', Obj [(js ''content'', Str text)])]])])\<rparr>"

definition demo_env :: env where
  "demo_env =
     \<lparr>now = js ''2024-01-02T00:00:00.000Z'',
      to_string = (\<lambda>v. js ''[object Object]''),
      engine_text = (\<lambda>f. js ''Cannot read properties''),
      openai_api_key = Some (js ''sk-test''),
      http_get = (\<lambda>u. if u = Str (js ''https://example.com'') then Inr demo_page
                       else Inl (js ''Invalid URL'')),
      completion = (\<lambda>k rq. Inr (demo_completion (js ''A short page.''))),
      key_of = (\<lambda>v. case v of Num n \<Rightarrow> if of_int \<lfloor>n\<rfloor> = n then Some \<lfloor>n\<rfloor> else None
                       | _ \<Rightarrow> None),
      select_error = (\<lambda>t v. \<lparr>pg_message = js ''no rows'', pg_code = js ''PGRST116'',
                              pg_hint = None\<rparr>),
      insert_urls = (\<lambda>row. Inr \<lparr>u_id = 2, u_created_at = js ''2024-01-02T00:00:00+00:00'',
                              u_url = (case js_get row ''url'' of Str s \<Rightarrow> s | _ \<Rightarrow> []),
                              u_caption = None\<rparr>),
      insert_url_summery = (\<lambda>row. Inr \<lparr>s_id = 1, s_created_at = js ''2024-01-02T00:00:01+00:00'',
                              s_url_id = None, s_prompt_id = None,
                              s_scraped_data = None, s_ai_response = None\<rparr>)\<rparr>"

definition post :: "(string \<times> jsval) list \<Rightarrow> request" where
  "post kvs = \<lparr>req_method = js ''POST'', req_json = Inr (Obj (map (\<lambda>(k, v). (js k, v)) kvs))\<rparr>"

text \<open>
  The two rows the functions write, as the object literals passed to \<open>insert\<close>, and
  further sample inputs: an environment whose store refuses the analysis row, one whose
  completion service sends a given reply, and three requests.
\<close>

definition url_row_of :: "env \<Rightarrow> jsval \<Rightarrow> jsval" where
  "url_row_of e url = Obj [(js ''url'', url), (js ''caption'', Str (js ''URL added at '' @ now e))]"

definition summery_row_of :: "jsval \<Rightarrow> jsval \<Rightarrow> jsstring \<Rightarrow> jsval \<Rightarrow> jsval" where
  "summery_row_of url_id prompt_id scrapedText aiResponse =
     Obj [(js ''url_id'', url_id), (js ''prompt_id'', prompt_id),
          (js ''scraped_data'', Str scrapedText), (js ''ai_response'', aiResponse)]"

definition demo_env_failing_write :: env where
  "demo_env_failing_write =
     demo_env\<lparr>insert_url_summery :=
       (\<lambda>row. Inl \<lparr>pg_message = js ''violates foreign key constraint'',
                    pg_code = js ''23503'', pg_hint = None\<rparr>)\<rparr>"

definition demo_env_replying :: "http_reply \<Rightarrow> env" where
  "demo_env_replying reply = demo_env\<lparr>completion := (\<lambda>k rq. Inr reply)\<rparr>"

definition demo_ingest :: request where
  "demo_ingest = post [(''url'', Str (js ''https://example.com'')), (''prompt_id'', Num 1)]"

definition demo_analyze :: request where
  "demo_analyze = post [(''url_id'', Num 1), (''prompt_id'', Num 1)]"

definition demo_lost_prompt :: request where
  "demo_lost_prompt = post [(''url'', Str (js ''https://example.com'')), (''prompt_id'', Num 7)]"




section \<open>The patterns are the scanners\<close>

lemma ascii_lower_eq:
  "ascii_lower c = d \<longleftrightarrow>
     (if 0x41 \<le> c \<and> c \<le> 0x5A then c = d - 0x20 else c = d)"
  by (auto simp: ascii_lower_def)

lemma rx_One: "rx_match (One p # r) s = (case s of [] \<Rightarrow> None | c # cs \<Rightarrow> if p c then rx_match r cs else None)"
  by (cases s) auto

lemma rx_Greedy_One:
  "(\<And>c. q c \<Longrightarrow> \<not> p c) \<Longrightarrow>
   rx_match (Greedy p # One q # r) s =
     (case dropWhile p s of [] \<Rightarrow> None | c # cs \<Rightarrow> if q c then rx_match r cs else None)"
  by (induction s) (auto split: option.splits)

lemma rx_Greedy_end: "rx_match [Greedy p] s = Some (dropWhile p s)"
  by (induction s) auto

lemma rx_Lazy_any:
  "rx_match (Lazy any_cu # r) s =
     (case rx_match r s of Some rest \<Rightarrow> Some rest
      | None \<Rightarrow> (case s of [] \<Rightarrow> None | c # cs \<Rightarrow> rx_match (Lazy any_cu # r) cs))"
  by (cases s) (auto simp: any_cu_def split: option.splits)

lemma strip_prefix_ci_Cons:
  "strip_prefix_ci (a # as) s =
     (case s of [] \<Rightarrow> None | c # cs \<Rightarrow> if ascii_lower c = cu a then strip_prefix_ci as cs else None)"
  by (cases s) auto

lemma ascii_lower_cases:
  "ascii_lower c = cu CHR ''<'' \<longleftrightarrow> c = cu CHR ''<''"
  "ascii_lower c = cu CHR ''/'' \<longleftrightarrow> c = cu CHR ''/''"
  "ascii_lower c = cu CHR ''>'' \<longleftrightarrow> c = cu CHR ''>''"
  "ascii_lower c = cu CHR ''s'' \<longleftrightarrow> c = cu CHR ''s'' \<or> c = cu CHR ''S''"
  "ascii_lower c = cu CHR ''c'' \<longleftrightarrow> c = cu CHR ''c'' \<or> c = cu CHR ''C''"
  "ascii_lower c = cu CHR ''r'' \<longleftrightarrow> c = cu CHR ''r'' \<or> c = cu CHR ''R''"
  "ascii_lower c = cu CHR ''i'' \<longleftrightarrow> c = cu CHR ''i'' \<or> c = cu CHR ''I''"
  "ascii_lower c = cu CHR ''p'' \<longleftrightarrow> c = cu CHR ''p'' \<or> c = cu CHR ''P''"
  "ascii_lower c = cu CHR ''t'' \<longleftrightarrow> c = cu CHR ''t'' \<or> c = cu CHR ''T''"
  "ascii_lower c = cu CHR ''y'' \<longleftrightarrow> c = cu CHR ''y'' \<or> c = cu CHR ''Y''"
  "ascii_lower c = cu CHR ''l'' \<longleftrightarrow> c = cu CHR ''l'' \<or> c = cu CHR ''L''"
  "ascii_lower c = cu CHR ''e'' \<longleftrightarrow> c = cu CHR ''e'' \<or> c = cu CHR ''E''"
  by (auto simp: ascii_lower_eq cu_def)

lemma close_script: "rx_match close_script s = strip_prefix_ci ''</script>'' s"
  unfolding close_script_def lit_def ci_def
  by (simp add: rx_One strip_prefix_ci_Cons ascii_lower_cases split: list.splits)

lemma lazy_close_script: "rx_match (Lazy any_cu # close_script) s = after_close ''script'' s"
proof (induction s)
  case Nil
  show ?case by (simp add: close_script)
next
  case (Cons c cs)
  then show ?case
    by (simp add: close_script any_cu_def del: strip_prefix_ci.simps split: option.splits)
qed



lemma dropWhile_Cons_head: "dropWhile P xs = y # ys \<Longrightarrow> \<not> P y"
  by (simp add: dropWhile_eq_Cons_conv)

lemma rx_tag_tail:
  "rx_match (Greedy not_gt # lit CHR ''>'' # r) s =
     (case dropWhile (\<lambda>c. c \<noteq> cu CHR ''>'') s of [] \<Rightarrow> None | g # inner \<Rightarrow> rx_match r inner)"
proof -
  have n: "not_gt = (\<lambda>c. c \<noteq> cu CHR ''>'')"
    by (simp add: not_gt_def fun_eq_iff)
  have m: "rx_match (Greedy not_gt # One (\<lambda>c. c = cu CHR ''>'') # r) s =
     (case dropWhile not_gt s of [] \<Rightarrow> None
      | c # cs \<Rightarrow> if c = cu CHR ''>'' then rx_match r cs else None)"
    by (rule rx_Greedy_One) (simp add: not_gt_def)
  show ?thesis
  proof (cases "dropWhile not_gt s")
    case Nil
    with m show ?thesis by (simp only: lit_def n list.case)
  next
    case (Cons g inner)
    then have "g = cu CHR ''>''"
      by (auto dest: dropWhile_Cons_head simp: not_gt_def)
    with m Cons show ?thesis by (simp add: lit_def n)
  qed
qed

lemma script_re: "rx_match script_re s = block_at ''script'' s"
proof -
  have "rx_match script_re s =
     (case strip_prefix_ci ''<script'' s of None \<Rightarrow> None
      | Some r1 \<Rightarrow> rx_match (Greedy not_gt # lit CHR ''>'' # Lazy any_cu # close_script) r1)"
    unfolding script_re_def close_script_def [symmetric]
    by (simp add: lit_def [of "CHR ''<''"] ci_def rx_One strip_prefix_ci_Cons ascii_lower_cases
          split: list.splits)
  then show ?thesis
    by (simp only: block_at_def rx_tag_tail lazy_close_script append.simps)
qed


lemma close_style: "rx_match close_style s = strip_prefix_ci ''</style>'' s"
  unfolding close_style_def lit_def ci_def
  by (simp add: rx_One strip_prefix_ci_Cons ascii_lower_cases split: list.splits)

lemma lazy_close_style: "rx_match (Lazy any_cu # close_style) s = after_close ''style'' s"
proof (induction s)
  case Nil
  show ?case by (simp add: close_style)
next
  case (Cons c cs)
  then show ?case
    by (simp add: close_style any_cu_def del: strip_prefix_ci.simps split: option.splits)
qed

lemma style_re: "rx_match style_re s = block_at ''style'' s"
proof -
  have "rx_match style_re s =
     (case strip_prefix_ci ''<style'' s of None \<Rightarrow> None
      | Some r1 \<Rightarrow> rx_match (Greedy not_gt # lit CHR ''>'' # Lazy any_cu # close_style) r1)"
    unfolding style_re_def close_style_def [symmetric]
    by (simp add: lit_def [of "CHR ''<''"] ci_def rx_One strip_prefix_ci_Cons ascii_lower_cases
          split: list.splits)
  then show ?thesis
    by (simp only: block_at_def rx_tag_tail lazy_close_style append.simps)
qed

lemma replace_g_blocks:
  assumes re: "\<And>s. rx_match re s = block_at nm s"
  shows "replace_g re [] s = remove_blocks nm s"
proof (induction s rule: length_induct)
  case (1 s)
  show ?case
  proof (cases s)
    case Nil
    have "block_at nm [] = None" by (simp add: block_at_def)
    with Nil show ?thesis by (simp add: re)
  next
    case (Cons c cs)
    show ?thesis
    proof (cases "block_at nm (c # cs)")
      case None
      have "length cs < length s" using Cons by simp
      with 1 have "replace_g re [] cs = remove_blocks nm cs" by blast
      with None Cons show ?thesis by (simp add: re)
    next
      case (Some rest)
      then have l: "length rest < Suc (length cs)" by (auto dest: block_at_length)
      with 1 Cons have "replace_g re [] rest = remove_blocks nm rest" by simp
      with Some Cons l show ?thesis by (simp add: re)
    qed
  qed
qed

lemma tag_re:
  "rx_match tag_re (c # cs) =
     (if c = cu CHR ''<'' \<and> cu CHR ''>'' \<in> set cs
      then Some (tl (dropWhile (\<lambda>x. x \<noteq> cu CHR ''>'') cs)) else None)"
proof -
  have m: "rx_match tag_re (c # cs) =
     (if c = cu CHR ''<''
      then (case dropWhile (\<lambda>x. x \<noteq> cu CHR ''>'') cs of [] \<Rightarrow> None | g # inner \<Rightarrow> Some inner)
      else None)"
    by (simp add: tag_re_def lit_def [of "CHR ''<''"] rx_tag_tail cong: list.case_cong)
  show ?thesis
  proof (cases "dropWhile (\<lambda>x. x \<noteq> cu CHR ''>'') cs")
    case Nil
    then have "cu CHR ''>'' \<notin> set cs"
      by (auto simp: dropWhile_eq_Nil_conv)
    then show ?thesis
      unfolding m Nil by simp
  next
    case (Cons g inner)
    have "g \<in> set (dropWhile (\<lambda>x. x \<noteq> cu CHR ''>'') cs)"
      unfolding Cons by simp
    then have "g \<in> set cs" by (rule set_dropWhileD)
    moreover have "g = cu CHR ''>''"
      using Cons by (auto dest: dropWhile_Cons_head)
    ultimately have "cu CHR ''>'' \<in> set cs" by simp
    then show ?thesis
      unfolding m Cons by simp
  qed
qed

lemma replace_g_tags: "replace_g tag_re [] s = remove_tags s"
proof (induction s rule: remove_tags.induct)
  case 1
  show ?case by (simp add: tag_re_def lit_def)
next
  case (2 c cs)
  then show ?case by (simp add: tag_re length_tl_dropWhile)
qed

lemma ws_re:
  "rx_match ws_re (c # cs) = (if isWhiteSpace c then Some (dropWhile isWhiteSpace cs) else None)"
  by (simp add: ws_re_def rx_Greedy_end)

lemma replace_g_ws: "replace_g ws_re (js '' '') s = collapse_whitespace s"
proof (induction s rule: collapse_whitespace.induct)
  case 1
  show ?case by (simp add: ws_re_def)
next
  case (2 c cs)
  then show ?case by (simp add: ws_re js_def less_Suc_eq_le length_dropWhile_le)
qed

lemma substring_0: "substring s 0 n = take n s"
  by (simp add: substring_def min_def)

lemma extractText_spec_extract: "extractText html = spec_extract html"
  by (simp add: extractText_def spec_extract_def substring_0 replace_g_ws replace_g_tags
        replace_g_blocks [OF script_re] replace_g_blocks [OF style_re])

section \<open>The extracted text\<close>

lemma has_tag_append:
  "has_tag (a @ b) \<longleftrightarrow> has_tag a \<or> has_tag b \<or> (cu CHR ''<'' \<in> set a \<and> cu CHR ''>'' \<in> set b)"
  by (induction a) auto

lemma has_tag_iff:
  "has_tag s \<longleftrightarrow> (\<exists>u v w. s = u @ cu CHR ''<'' # v @ cu CHR ''>'' # w)"
proof
  assume "has_tag s"
  then show "\<exists>u v w. s = u @ cu CHR ''<'' # v @ cu CHR ''>'' # w"
  proof (induction s)
    case Nil
    then show ?case by simp
  next
    case (Cons c cs)
    show ?case
    proof (cases "c = cu CHR ''<'' \<and> cu CHR ''>'' \<in> set cs")
      case True
      then obtain v w where "cs = v @ cu CHR ''>'' # w"
        by (auto simp: in_set_conv_decomp)
      with True have "c # cs = [] @ cu CHR ''<'' # v @ cu CHR ''>'' # w" by simp
      then show ?thesis by blast
    next
      case False
      with Cons obtain u v w where "cs = u @ cu CHR ''<'' # v @ cu CHR ''>'' # w" by auto
      then have "c # cs = (c # u) @ cu CHR ''<'' # v @ cu CHR ''>'' # w" by simp
      then show ?thesis by blast
    qed
  qed
next
  assume "\<exists>u v w. s = u @ cu CHR ''<'' # v @ cu CHR ''>'' # w"
  then show "has_tag s" by (auto simp: has_tag_append)
qed

lemma has_ws_run_Cons:
  "has_ws_run (a # s) \<longleftrightarrow> (s \<noteq> [] \<and> isWhiteSpace a \<and> isWhiteSpace (hd s)) \<or> has_ws_run s"
  by (cases s) auto

lemma has_ws_run_append:
  "has_ws_run (a @ b) \<longleftrightarrow>
     has_ws_run a \<or> has_ws_run b \<or>
     (a \<noteq> [] \<and> b \<noteq> [] \<and> isWhiteSpace (last a) \<and> isWhiteSpace (hd b))"
  by (induction a rule: has_ws_run.induct) (auto simp: has_ws_run_Cons)

lemma has_ws_run_iff:
  "has_ws_run s \<longleftrightarrow> (\<exists>u a b w. s = u @ a # b # w \<and> isWhiteSpace a \<and> isWhiteSpace b)"
proof
  assume "has_ws_run s"
  then show "\<exists>u a b w. s = u @ a # b # w \<and> isWhiteSpace a \<and> isWhiteSpace b"
  proof (induction s rule: has_ws_run.induct)
    case (1 a b cs)
    show ?case
    proof (cases "isWhiteSpace a \<and> isWhiteSpace b")
      case True
      then have "a # b # cs = [] @ a # b # cs \<and> isWhiteSpace a \<and> isWhiteSpace b" by simp
      then show ?thesis by blast
    next
      case False
      with 1 obtain u x y w where "b # cs = u @ x # y # w" "isWhiteSpace x" "isWhiteSpace y"
        by auto
      then have "a # b # cs = (a # u) @ x # y # w \<and> isWhiteSpace x \<and> isWhiteSpace y" by simp
      then show ?thesis by blast
    qed
  qed simp_all
next
  assume "\<exists>u a b w. s = u @ a # b # w \<and> isWhiteSpace a \<and> isWhiteSpace b"
  then show "has_ws_run s" by (auto simp: has_ws_run_append)
qed

subsection \<open>tags\<close>

lemma set_tl_dropWhile: "x \<in> set (tl (dropWhile P xs)) \<Longrightarrow> x \<in> set xs"
proof -
  assume "x \<in> set (tl (dropWhile P xs))"
  then have "x \<in> set (dropWhile P xs)"
    by (cases "dropWhile P xs") simp_all
  then show ?thesis by (rule set_dropWhileD)
qed

lemma set_remove_tags: "set (remove_tags s) \<subseteq> set s"
proof (induction s rule: remove_tags.induct)
  case 1
  show ?case by simp
next
  case (2 c cs)
  have "set (tl (dropWhile (\<lambda>x. x \<noteq> cu CHR ''>'') cs)) \<subseteq> set cs"
    by (auto dest: set_tl_dropWhile)
  with 2 show ?case by auto
qed

lemma no_tag_remove_tags: "\<not> has_tag (remove_tags s)"
proof (induction s rule: remove_tags.induct)
  case 1
  show ?case by simp
next
  case (2 c cs)
  then show ?case using set_remove_tags [of cs] by auto
qed


lemma has_tag_filter:
  "has_tag (filter (\<lambda>c. c = cu CHR ''<'' \<or> c = cu CHR ''>'') s) = has_tag s"
  by (induction s) auto

lemma filter_collapse_whitespace:
  "(\<And>c. P c \<Longrightarrow> \<not> isWhiteSpace c) \<Longrightarrow> filter P (collapse_whitespace s) = filter P s"
proof (induction s rule: collapse_whitespace.induct)
  case 1
  show ?case by simp
next
  case (2 c cs)
  show ?case
  proof (cases "isWhiteSpace c")
    case True
    have sp: "isWhiteSpace (cu CHR '' '')" by (simp add: isWhiteSpace_def cu_def)
    have "filter P (takeWhile isWhiteSpace cs) = []"
      using 2(3) by (auto simp: filter_empty_conv dest: set_takeWhileD)
    moreover have "filter P cs =
        filter P (takeWhile isWhiteSpace cs) @ filter P (dropWhile isWhiteSpace cs)"
      by (simp only: filter_append [symmetric] takeWhile_dropWhile_id)
    ultimately have "filter P (dropWhile isWhiteSpace cs) = filter P cs"
      by simp
    with True 2 sp show ?thesis by auto
  next
    case False
    with 2 show ?thesis by simp
  qed
qed

lemma has_tag_collapse_whitespace: "has_tag (collapse_whitespace s) = has_tag s"
proof -
  have "\<And>c. c = cu CHR ''<'' \<or> c = cu CHR ''>'' \<Longrightarrow> \<not> isWhiteSpace c"
    by (auto simp: isWhiteSpace_def cu_def)
  then have "filter (\<lambda>c. c = cu CHR ''<'' \<or> c = cu CHR ''>'') (collapse_whitespace s) =
        filter (\<lambda>c. c = cu CHR ''<'' \<or> c = cu CHR ''>'') s"
    by (rule filter_collapse_whitespace)
  then have "has_tag (filter (\<lambda>c. c = cu CHR ''<'' \<or> c = cu CHR ''>'') (collapse_whitespace s)) =
        has_tag (filter (\<lambda>c. c = cu CHR ''<'' \<or> c = cu CHR ''>'') s)"
    by (rule arg_cong)
  then show ?thesis by (simp only: has_tag_filter)
qed

lemma has_tag_take: "has_tag (take n s) \<Longrightarrow> has_tag s"
proof -
  assume "has_tag (take n s)"
  then have "has_tag (take n s @ drop n s)" by (simp only: has_tag_append) simp
  then show ?thesis by simp
qed

lemma has_tag_dropWhile: "has_tag (dropWhile P s) \<Longrightarrow> has_tag s"
proof -
  assume "has_tag (dropWhile P s)"
  then have "has_tag (takeWhile P s @ dropWhile P s)" by (simp only: has_tag_append) simp
  then show ?thesis by simp
qed

lemma trim_prefix: "\<exists>w. dropWhile isWhiteSpace s = trim s @ w"
proof -
  have "rev (dropWhile isWhiteSpace s) =
      takeWhile isWhiteSpace (rev (dropWhile isWhiteSpace s)) @
      dropWhile isWhiteSpace (rev (dropWhile isWhiteSpace s))"
    by simp
  then have "rev (rev (dropWhile isWhiteSpace s)) =
      rev (takeWhile isWhiteSpace (rev (dropWhile isWhiteSpace s)) @
      dropWhile isWhiteSpace (rev (dropWhile isWhiteSpace s)))"
    by (rule arg_cong)
  then have "dropWhile isWhiteSpace s =
      rev (dropWhile isWhiteSpace (rev (dropWhile isWhiteSpace s))) @
      rev (takeWhile isWhiteSpace (rev (dropWhile isWhiteSpace s)))"
    by (simp only: rev_append rev_rev_ident)
  then show ?thesis unfolding trim_def by blast
qed

lemma has_tag_trim: "has_tag (trim s) \<Longrightarrow> has_tag s"
proof -
  assume a: "has_tag (trim s)"
  obtain w where w: "dropWhile isWhiteSpace s = trim s @ w" using trim_prefix by blast
  from a have "has_tag (trim s @ w)" by (simp add: has_tag_append)
  then have "has_tag (dropWhile isWhiteSpace s)" by (simp only: w)
  then show ?thesis by (rule has_tag_dropWhile)
qed

lemma no_tag_spec_extract: "\<not> has_tag (spec_extract html)"
proof
  let ?x = "remove_tags (remove_blocks ''style'' (remove_blocks ''script'' html))"
  assume "has_tag (spec_extract html)"
  then have "has_tag (take 8000 (trim (collapse_whitespace ?x)))"
    by (simp only: spec_extract_def)
  then have "has_tag (trim (collapse_whitespace ?x))" by (rule has_tag_take)
  then have "has_tag (collapse_whitespace ?x)" by (rule has_tag_trim)
  then have "has_tag ?x" by (simp only: has_tag_collapse_whitespace)
  then show False by (simp only: no_tag_remove_tags)
qed

subsection \<open>whitespace runs\<close>

lemma isWhiteSpace_space: "isWhiteSpace (cu CHR '' '')"
  by (simp add: isWhiteSpace_def cu_def)

lemma no_ws_run_collapse_whitespace: "\<not> has_ws_run (collapse_whitespace s)"
proof (induction s rule: collapse_whitespace.induct)
  case 1
  show ?case by simp
next
  case (2 c cs)
  show ?case
  proof (cases "isWhiteSpace c")
    case True
    let ?d = "dropWhile isWhiteSpace cs"
    have "\<not> (collapse_whitespace ?d \<noteq> [] \<and> isWhiteSpace (hd (collapse_whitespace ?d)))"
    proof (cases ?d)
      case Nil
      show ?thesis unfolding Nil by simp
    next
      case (Cons y ys)
      then have "\<not> isWhiteSpace y" by (rule dropWhile_Cons_head)
      then show ?thesis unfolding Cons by simp
    qed
    with True 2 show ?thesis by (simp add: has_ws_run_Cons)
  next
    case False
    with 2 show ?thesis by (simp add: has_ws_run_Cons)
  qed
qed

lemma has_ws_run_take: "has_ws_run (take n s) \<Longrightarrow> has_ws_run s"
proof -
  assume "has_ws_run (take n s)"
  then have "has_ws_run (take n s @ drop n s)" by (simp only: has_ws_run_append) simp
  then show ?thesis by simp
qed

lemma has_ws_run_dropWhile: "has_ws_run (dropWhile P s) \<Longrightarrow> has_ws_run s"
proof -
  assume "has_ws_run (dropWhile P s)"
  then have "has_ws_run (takeWhile P s @ dropWhile P s)" by (simp only: has_ws_run_append) simp
  then show ?thesis by simp
qed

lemma has_ws_run_trim: "has_ws_run (trim s) \<Longrightarrow> has_ws_run s"
proof -
  assume a: "has_ws_run (trim s)"
  obtain w where w: "dropWhile isWhiteSpace s = trim s @ w" using trim_prefix by blast
  from a have "has_ws_run (trim s @ w)" by (simp only: has_ws_run_append) simp
  then have "has_ws_run (dropWhile isWhiteSpace s)" by (simp only: w)
  then show ?thesis by (rule has_ws_run_dropWhile)
qed

lemma no_ws_run_spec_extract: "\<not> has_ws_run (spec_extract html)"
proof
  let ?x = "remove_tags (remove_blocks ''style'' (remove_blocks ''script'' html))"
  assume "has_ws_run (spec_extract html)"
  then have "has_ws_run (take 8000 (trim (collapse_whitespace ?x)))"
    by (simp only: spec_extract_def)
  then have "has_ws_run (trim (collapse_whitespace ?x))" by (rule has_ws_run_take)
  then have "has_ws_run (collapse_whitespace ?x)" by (rule has_ws_run_trim)
  then show False by (simp only: no_ws_run_collapse_whitespace)
qed

subsection \<open>clean text\<close>

lemma ws_collapse_whitespace:
  "c \<in> set (collapse_whitespace s) \<Longrightarrow> isWhiteSpace c \<Longrightarrow> c = cu CHR '' ''"
proof (induction s rule: collapse_whitespace.induct)
  case 1
  then show ?case by simp
next
  case (2 x xs)
  then show ?case by (cases "isWhiteSpace x") auto
qed

lemma set_trim: "set (trim s) \<subseteq> set s"
proof -
  obtain w where w: "dropWhile isWhiteSpace s = trim s @ w" using trim_prefix by blast
  have "set (trim s) \<subseteq> set (trim s @ w)" by simp
  also have "\<dots> = set (dropWhile isWhiteSpace s)" by (simp only: w)
  also have "\<dots> \<subseteq> set s" by (auto dest: set_dropWhileD)
  finally show ?thesis .
qed

lemma ws_spec_extract:
  "c \<in> set (spec_extract html) \<Longrightarrow> isWhiteSpace c \<Longrightarrow> c = cu CHR '' ''"
proof -
  let ?x = "remove_tags (remove_blocks ''style'' (remove_blocks ''script'' html))"
  assume "c \<in> set (spec_extract html)" and w: "isWhiteSpace c"
  then have "c \<in> set (take 8000 (trim (collapse_whitespace ?x)))"
    by (simp only: spec_extract_def)
  then have "c \<in> set (trim (collapse_whitespace ?x))" by (rule in_set_takeD)
  then have "c \<in> set (collapse_whitespace ?x)" using set_trim by blast
  then show ?thesis using w by (rule ws_collapse_whitespace)
qed

lemma strip_prefix_ci_set: "strip_prefix_ci p s = Some r \<Longrightarrow> set r \<subseteq> set s"
  by (induction p s rule: strip_prefix_ci.induct) (auto split: if_splits)

lemma block_at_opens:
  assumes "block_at nm (c # cs) = Some r"
  shows "c = cu CHR ''<'' \<and> cu CHR ''>'' \<in> set cs"
proof -
  from assms obtain r1 where r1: "strip_prefix_ci (''<'' @ nm) (c # cs) = Some r1"
    by (auto simp: block_at_def split: option.splits)
  then have c: "c = cu CHR ''<''" and r2: "strip_prefix_ci nm cs = Some r1"
    by (auto simp: ascii_lower_cases split: if_splits)
  from assms r1 obtain g inner where d: "dropWhile (\<lambda>c. c \<noteq> cu CHR ''>'') r1 = g # inner"
    by (auto simp: block_at_def split: option.splits list.splits)
  then have "g = cu CHR ''>''" by (auto dest: dropWhile_Cons_head)
  moreover have "g \<in> set (dropWhile (\<lambda>c. c \<noteq> cu CHR ''>'') r1)" unfolding d by simp
  then have "g \<in> set r1" by (rule set_dropWhileD)
  ultimately have "cu CHR ''>'' \<in> set cs" using strip_prefix_ci_set [OF r2] by auto
  with c show ?thesis by simp
qed

lemma remove_blocks_clean: "\<not> has_tag s \<Longrightarrow> remove_blocks nm s = s"
proof (induction s)
  case Nil
  show ?case by simp
next
  case (Cons c cs)
  then have "block_at nm (c # cs) = None"
    using block_at_opens [of nm c cs] by (cases "block_at nm (c # cs)") auto
  with Cons show ?case by simp
qed

lemma remove_tags_clean: "\<not> has_tag s \<Longrightarrow> remove_tags s = s"
  by (induction s) auto

lemma collapse_whitespace_clean:
  "\<not> has_ws_run s \<Longrightarrow> (\<And>c. c \<in> set s \<Longrightarrow> isWhiteSpace c \<Longrightarrow> c = cu CHR '' '') \<Longrightarrow>
   collapse_whitespace s = s"
proof (induction s)
  case Nil
  show ?case by simp
next
  case (Cons c cs)
  have n: "\<not> has_ws_run cs" using Cons.prems(1) by (simp add: has_ws_run_Cons)
  have ih: "collapse_whitespace cs = cs"
    by (rule Cons.IH [OF n]) (simp add: Cons.prems(2))
  show ?case
  proof (cases "isWhiteSpace c")
    case True
    then have c: "c = cu CHR '' ''" using Cons.prems(2) by simp
    have "dropWhile isWhiteSpace cs = cs"
      using Cons.prems(1) True by (cases cs) (auto simp: has_ws_run_Cons)
    with True c ih show ?thesis by simp
  next
    case False
    with ih show ?thesis by simp
  qed
qed

subsection \<open>trim\<close>

lemma last_dropWhile_eq: "dropWhile P xs \<noteq> [] \<Longrightarrow> last (dropWhile P xs) = last xs"
proof -
  assume a: "dropWhile P xs \<noteq> []"
  have "last xs = last (takeWhile P xs @ dropWhile P xs)" by simp
  also have "\<dots> = last (dropWhile P xs)" using a by (simp only: last_append if_False)
  finally show ?thesis by simp
qed

lemma trim_ends:
  assumes "trim s \<noteq> []"
  shows "\<not> isWhiteSpace (hd (trim s)) \<and> \<not> isWhiteSpace (last (trim s))"
proof -
  let ?d = "dropWhile isWhiteSpace s"
  let ?e = "dropWhile isWhiteSpace (rev ?d)"
  have t: "trim s = rev ?e" by (simp add: trim_def)
  with assms have e: "?e \<noteq> []" by simp
  have d: "?d \<noteq> []"
  proof
    assume a: "?d = []"
    have "?e = []" unfolding a by simp
    with e show False by simp
  qed
  have "last (trim s) = hd ?e" using e by (simp add: t last_rev)
  moreover have "\<not> isWhiteSpace (hd ?e)" using e by (rule hd_dropWhile)
  moreover have "hd (trim s) = last ?e" using e by (simp add: t hd_rev)
  moreover have "last ?e = last (rev ?d)" using e by (rule last_dropWhile_eq)
  moreover have "last (rev ?d) = hd ?d" using d by (simp add: last_rev)
  moreover have "\<not> isWhiteSpace (hd ?d)" using d by (rule hd_dropWhile)
  ultimately show ?thesis by simp
qed

lemma dropWhile_id: "xs = [] \<or> \<not> P (hd xs) \<Longrightarrow> dropWhile P xs = xs"
  by (cases xs) auto

lemma trim_clean:
  assumes "s = [] \<or> (\<not> isWhiteSpace (hd s) \<and> \<not> isWhiteSpace (last s))"
  shows "trim s = s"
proof -
  have 1: "dropWhile isWhiteSpace s = s" using assms by (auto intro: dropWhile_id)
  have "rev s = [] \<or> \<not> isWhiteSpace (hd (rev s))"
    using assms by (auto simp: hd_rev)
  then have 2: "dropWhile isWhiteSpace (rev s) = rev s" by (rule dropWhile_id)
  show ?thesis by (simp add: trim_def 1 2)
qed

lemma trim_fixed:
  assumes "trim s = s"
  shows "s = [] \<or> \<not> isWhiteSpace (last s)"
proof (cases "s = []")
  case True
  then show ?thesis by simp
next
  case False
  with assms have "trim s \<noteq> []" by simp
  then have "\<not> isWhiteSpace (last (trim s))" using trim_ends by blast
  with assms show ?thesis by simp
qed

lemma length_trim: "length (trim s) \<le> length s"
proof -
  have "length (trim s) \<le> length (dropWhile isWhiteSpace s)"
    by (simp add: trim_def length_dropWhile_le [of isWhiteSpace "rev (dropWhile isWhiteSpace s)", simplified])
  also have "\<dots> \<le> length s" by (rule length_dropWhile_le)
  finally show ?thesis .
qed

subsection \<open>extracting twice\<close>

lemma length_spec_extract: "length (spec_extract html) \<le> 8000"
  by (simp add: spec_extract_def)

lemma hd_spec_extract:
  assumes "spec_extract html \<noteq> []"
  shows "\<not> isWhiteSpace (hd (spec_extract html))"
proof -
  let ?x = "collapse_whitespace (remove_tags
       (remove_blocks ''style'' (remove_blocks ''script'' html)))"
  have t: "spec_extract html = take 8000 (trim ?x)" by (simp only: spec_extract_def)
  with assms have n: "trim ?x \<noteq> []" by auto
  then have "hd (spec_extract html) = hd (trim ?x)" by (simp add: t)
  with trim_ends [OF n] show ?thesis by simp
qed

lemma spec_extract_clean:
  assumes "\<not> has_tag t" and "\<not> has_ws_run t"
    and "\<And>c. c \<in> set t \<Longrightarrow> isWhiteSpace c \<Longrightarrow> c = cu CHR '' ''"
    and "length t \<le> 8000"
  shows "spec_extract t = trim t"
proof -
  have 1: "remove_blocks ''script'' t = t" using assms(1) by (rule remove_blocks_clean)
  have 2: "remove_blocks ''style'' t = t" using assms(1) by (rule remove_blocks_clean)
  have 3: "remove_tags t = t" using assms(1) by (rule remove_tags_clean)
  have 4: "collapse_whitespace t = t" using assms(2,3) by (rule collapse_whitespace_clean)
  have "length (trim t) \<le> 8000" using length_trim [of t] assms(4) by simp
  then show ?thesis by (simp add: spec_extract_def 1 2 3 4)
qed

lemma spec_extract_twice: "spec_extract (spec_extract html) = trim (spec_extract html)"
  by (rule spec_extract_clean)
     (simp_all add: no_tag_spec_extract no_ws_run_spec_extract ws_spec_extract length_spec_extract)

lemma spec_extract_fixed_iff:
  "spec_extract (spec_extract html) = spec_extract html \<longleftrightarrow>
     spec_extract html = [] \<or> \<not> isWhiteSpace (last (spec_extract html))"
proof
  assume "spec_extract (spec_extract html) = spec_extract html"
  then have "trim (spec_extract html) = spec_extract html" by (simp only: spec_extract_twice)
  then show "spec_extract html = [] \<or> \<not> isWhiteSpace (last (spec_extract html))"
    by (rule trim_fixed)
next
  assume a: "spec_extract html = [] \<or> \<not> isWhiteSpace (last (spec_extract html))"
  have "trim (spec_extract html) = spec_extract html"
  proof (rule trim_clean)
    show "spec_extract html = [] \<or>
      (\<not> isWhiteSpace (hd (spec_extract html)) \<and> \<not> isWhiteSpace (last (spec_extract html)))"
      using a hd_spec_extract by blast
  qed
  then show "spec_extract (spec_extract html) = spec_extract html"
    by (simp only: spec_extract_twice)
qed

subsection \<open>a long text cut behind a space\<close>

lemma no_tag_without_lt: "cu CHR ''<'' \<notin> set s \<Longrightarrow> \<not> has_tag s"
  by (induction s) auto

lemma no_ws_run_without_ws: "(\<And>c. c \<in> set s \<Longrightarrow> \<not> isWhiteSpace c) \<Longrightarrow> \<not> has_ws_run s"
  by (induction s rule: has_ws_run.induct) auto

lemma not_ws_letters:
  "\<not> isWhiteSpace (cu CHR ''a'')" "\<not> isWhiteSpace (cu CHR ''b'')"
  by (simp_all add: isWhiteSpace_def cu_def)

lemma spec_extract_long:
  "spec_extract (replicate 7999 (cu CHR ''a'') @ js '' b'') =
     replicate 7999 (cu CHR ''a'') @ js '' ''"
proof -
  let ?t = "replicate 7999 (cu CHR ''a'') @ js '' b''"
  have lt: "cu CHR ''<'' \<notin> set ?t" by (simp add: js_def cu_def)
  then have 0: "\<not> has_tag ?t" by (rule no_tag_without_lt)
  have 1: "remove_blocks ''script'' ?t = ?t" using 0 by (rule remove_blocks_clean)
  have 2: "remove_blocks ''style'' ?t = ?t" using 0 by (rule remove_blocks_clean)
  have 3: "remove_tags ?t = ?t" using 0 by (rule remove_tags_clean)
  have "\<not> has_ws_run (replicate 7999 (cu CHR ''a''))"
    by (rule no_ws_run_without_ws) (simp add: not_ws_letters)
  then have r: "\<not> has_ws_run ?t"
    by (simp add: has_ws_run_append js_def not_ws_letters)
  have w: "\<And>c. c \<in> set ?t \<Longrightarrow> isWhiteSpace c \<Longrightarrow> c = cu CHR '' ''"
    by (auto simp: js_def not_ws_letters)
  have 4: "collapse_whitespace ?t = ?t" using r w by (rule collapse_whitespace_clean)
  have 5: "trim ?t = ?t"
    by (rule trim_clean) (simp add: js_def not_ws_letters hd_append)
  show ?thesis
    by (simp add: spec_extract_def 1 2 3 4 5) (simp add: js_def)
qed

lemma spec_extract_long_not_fixed:
  "spec_extract (spec_extract (replicate 7999 (cu CHR ''a'') @ js '' b'')) \<noteq>
     spec_extract (replicate 7999 (cu CHR ''a'') @ js '' b'')"
proof
  let ?h = "replicate 7999 (cu CHR ''a'') @ js '' b''"
  assume "spec_extract (spec_extract ?h) = spec_extract ?h"
  then have "spec_extract ?h = [] \<or> \<not> isWhiteSpace (last (spec_extract ?h))"
    by (simp only: spec_extract_fixed_iff)
  then show False
    unfolding spec_extract_long by (simp add: js_def isWhiteSpace_space)
qed

subsection \<open>where the truncation cuts\<close>

lemma extractText_take:
  "extractText html =
     take 8000 (trim (replace_g ws_re (js '' '') (replace_g tag_re []
       (replace_g style_re [] (replace_g script_re [] html)))))"
  by (simp add: extractText_def substring_0)

lemma cut_behind_space:
  assumes e: "t = take 8000 (trim x)"
    and w: "\<And>c. c \<in> set t \<Longrightarrow> isWhiteSpace c \<Longrightarrow> c = cu CHR '' ''"
  shows "(t \<noteq> [] \<and> isWhiteSpace (last t)) \<longleftrightarrow>
     (8000 < length (trim x) \<and> trim x ! 7999 = cu CHR '' '')"
proof
  assume a: "t \<noteq> [] \<and> isWhiteSpace (last t)"
  have long: "8000 < length (trim x)"
  proof (rule ccontr)
    assume "\<not> 8000 < length (trim x)"
    then have "t = trim x" using e by simp
    with a trim_ends [of x] show False by simp
  qed
  then have len: "length t = 8000" using e by simp
  then have "last t = t ! 7999" using a by (simp add: last_conv_nth)
  also have "\<dots> = trim x ! 7999" unfolding e by simp
  finally have l: "last t = trim x ! 7999" .
  from a have "last t \<in> set t" by simp
  with a w have "last t = cu CHR '' ''" by blast
  with l long show "8000 < length (trim x) \<and> trim x ! 7999 = cu CHR '' ''" by simp
next
  assume a: "8000 < length (trim x) \<and> trim x ! 7999 = cu CHR '' ''"
  then have len: "length t = 8000" using e by simp
  then have n: "t \<noteq> []" by auto
  then have "last t = t ! 7999" using len by (simp add: last_conv_nth)
  also have "\<dots> = trim x ! 7999" unfolding e by simp
  finally have "last t = cu CHR '' ''" using a by simp
  with n show "t \<noteq> [] \<and> isWhiteSpace (last t)" by (simp add: isWhiteSpace_space)
qed

section \<open>Claims about the extractor\<close>

text \<open>
  C4. The extractor of the source is the function the specification describes: script
  blocks removed, then style blocks, then the remaining tags, then every run of
  whitespace collapsed to one space, then trimming, then truncation to 8000 code units.
  Consequently its result, for every input, holds no \<open><\<close> with a \<open>>\<close> anywhere behind it
  (so no tag), and no two whitespace characters in a row.
\<close>

theorem extractText_meets_specification:
  "extractText html = spec_extract html \<and>
   \<not> (\<exists>u v w. extractText html = u @ cu CHR ''<'' # v @ cu CHR ''>'' # w) \<and>
   \<not> (\<exists>u a b w. extractText html = u @ a # b # w \<and> isWhiteSpace a \<and> isWhiteSpace b)"
proof -
  have "\<not> has_tag (extractText html)"
    by (simp only: extractText_spec_extract no_tag_spec_extract not_False_eq_True)
  moreover have "\<not> has_ws_run (extractText html)"
    by (simp only: extractText_spec_extract no_ws_run_spec_extract not_False_eq_True)
  ultimately show ?thesis
    by (simp only: has_tag_iff has_ws_run_iff extractText_spec_extract) simp
qed

theorem extractText_meets_specification_witness:
  "spec_extract (js ''<html><body><script>x</script>Hello <b>World</b></body></html>'') =
     js ''Hello World''"
proof -
  have "extractText (js ''<html><body><script>x</script>Hello <b>World</b></body></html>'') =
      js ''Hello World''"
    by (simp add: extractText_def js_def cu_def script_re_def style_re_def tag_re_def
          ws_re_def lit_def ci_def not_gt_def any_cu_def isWhiteSpace_def trim_def
          substring_def)
  with extractText_meets_specification
         [of "js ''<html><body><script>x</script>Hello <b>World</b></body></html>''"]
  show ?thesis by simp
qed

text \<open>
  C5, as the specification states it, fails: \<open>substring\<close> comes after \<open>trim\<close>, so a
  text cut at 8000 code units can end in a space, which a second extraction trims off.
  The input is 7999 letters \<open>a\<close>, a space and a \<open>b\<close>.
\<close>

theorem extractText_not_idempotent:
  "extractText (extractText (replicate 7999 (cu CHR ''a'') @ js '' b'')) \<noteq>
     extractText (replicate 7999 (cu CHR ''a'') @ js '' b'')"
  by (simp only: extractText_spec_extract spec_extract_long_not_fixed not_False_eq_True)

text \<open>
  C5, amended. Extracting an extracted text only trims it, and so
  \<open>extract (extract html) = extract html\<close> holds exactly when the extracted text is empty
  or does not end in a whitespace character. It fails exactly when the text before the
  truncation (blocks and tags removed, whitespace collapsed, trimmed) has more than 8000
  code units and its 8000th code unit is a space: the truncation then cuts directly
  behind a space.
\<close>

theorem extractText_idempotent_iff:
  "extractText (extractText html) = trim (extractText html) \<and>
   (extractText (extractText html) = extractText html \<longleftrightarrow>
      extractText html = [] \<or> \<not> isWhiteSpace (last (extractText html))) \<and>
   (extractText (extractText html) \<noteq> extractText html \<longleftrightarrow>
      8000 < length (trim (replace_g ws_re (js '' '') (replace_g tag_re []
                 (replace_g style_re [] (replace_g script_re [] html))))) \<and>
      trim (replace_g ws_re (js '' '') (replace_g tag_re []
        (replace_g style_re [] (replace_g script_re [] html)))) ! 7999 = cu CHR '' '')"
proof (intro conjI)
  show "extractText (extractText html) = trim (extractText html)"
    by (simp only: extractText_spec_extract spec_extract_twice)
  show f: "extractText (extractText html) = extractText html \<longleftrightarrow>
      extractText html = [] \<or> \<not> isWhiteSpace (last (extractText html))"
    by (simp only: extractText_spec_extract) (rule spec_extract_fixed_iff)
  let ?x = "replace_g ws_re (js '' '') (replace_g tag_re []
       (replace_g style_re [] (replace_g script_re [] html)))"
  have "(extractText html \<noteq> [] \<and> isWhiteSpace (last (extractText html))) \<longleftrightarrow>
     (8000 < length (trim ?x) \<and> trim ?x ! 7999 = cu CHR '' '')"
  proof (rule cut_behind_space)
    show "extractText html = take 8000 (trim ?x)" by (rule extractText_take)
    show "\<And>c. c \<in> set (extractText html) \<Longrightarrow> isWhiteSpace c \<Longrightarrow> c = cu CHR '' ''"
      by (simp only: extractText_spec_extract) (rule ws_spec_extract)
  qed
  with f show "extractText (extractText html) \<noteq> extractText html \<longleftrightarrow>
      8000 < length (trim ?x) \<and> trim ?x ! 7999 = cu CHR '' ''"
    by blast
qed

theorem extractText_idempotent_iff_witness:
  "extractText (extractText (js '' <p>a  b</p> '')) = extractText (js '' <p>a  b</p> '') \<and>
   trim (replace_g ws_re (js '' '') (replace_g tag_re []
     (replace_g style_re [] (replace_g script_re []
       (replicate 7999 (cu CHR ''a'') @ js '' b''))))) ! 7999 = cu CHR '' ''"
proof
  have e: "extractText (js '' <p>a  b</p> '') = js ''a b''"
    by (simp add: extractText_def js_def cu_def script_re_def style_re_def tag_re_def
          ws_re_def lit_def ci_def not_gt_def any_cu_def isWhiteSpace_def trim_def
          substring_def)
  have "\<not> isWhiteSpace (last (js ''a b''))"
    by (simp add: js_def cu_def isWhiteSpace_def)
  then have "\<not> isWhiteSpace (last (extractText (js '' <p>a  b</p> '')))"
    unfolding e .
  with extractText_idempotent_iff [of "js '' <p>a  b</p> ''", THEN conjunct2, THEN conjunct1]
  show "extractText (extractText (js '' <p>a  b</p> '')) = extractText (js '' <p>a  b</p> '')"
    by blast
next
  let ?h = "replicate 7999 (cu CHR ''a'') @ js '' b''"
  have ne: "extractText (extractText ?h) \<noteq> extractText ?h"
    by (simp only: extractText_spec_extract spec_extract_long_not_fixed not_False_eq_True)
  from extractText_idempotent_iff [of ?h, THEN conjunct2, THEN conjunct2, THEN iffD1, OF ne]
  show "trim (replace_g ws_re (js '' '') (replace_g tag_re []
     (replace_g style_re [] (replace_g script_re [] ?h)))) ! 7999 = cu CHR '' ''"
    by (rule conjunct2)
qed

section \<open>Claims about the two functions\<close>

lemmas demo_defs =
  demo_env_def demo_store_def demo_page_def demo_completion_def post_def
  demo_env_failing_write_def demo_env_replying_def demo_ingest_def demo_analyze_def
  demo_lost_prompt_def

lemmas handler_defs =
  summerize_url_def summerize_saved_def summerize_success_def
  process_url_def process_found_def process_success_def
  select_single_def scrape_def ask_chatgpt_def first_choice_content_def configured_key_def
  chat_body_def template_def or_null_def opt_str_def json_response_def preflight_def
  nullish_def js_get_opt_def reply_ok_def body_field_def url_row_of_def summery_row_of_def
  Let_def

lemmas text_defs =
  extractText_def js_def cu_def script_re_def style_re_def tag_re_def ws_re_def lit_def
  ci_def not_gt_def any_cu_def isWhiteSpace_def trim_def substring_def

lemma js_get_without_same: "js_get (Obj (filter (\<lambda>kv. fst kv \<noteq> js k) kvs)) k = Undefined"
proof -
  have "map_of (filter (\<lambda>kv. fst kv \<noteq> js k) kvs) (js k) = None"
    by (induction kvs) auto
  then show ?thesis by simp
qed

lemma js_get_without_other:
  "js k' \<noteq> js k \<Longrightarrow>
   js_get (Obj (filter (\<lambda>kv. fst kv \<noteq> js k) kvs)) k' = js_get (Obj kvs) k'"
proof -
  assume n: "js k' \<noteq> js k"
  have "map_of (filter (\<lambda>kv. fst kv \<noteq> js k) kvs) (js k') = map_of kvs (js k')"
    using n by (induction kvs) auto
  then show ?thesis by simp
qed

text \<open>
  C10. An OPTIONS request to either function is answered with status 200, no body and
  the CORS headers, among them \<open>Access-Control-Allow-Origin: *\<close>; the store is unchanged
  and no call to the store or to the network is made.
\<close>

theorem options_preflight:
  assumes "req_method req = js ''OPTIONS''"
  shows "summerize_url e st req = (preflight, st, []) \<and>
         process_url e st req = (preflight, st, []) \<and>
         status preflight = 200 \<and> body preflight = None \<and>
         map_of (headers preflight) ''Access-Control-Allow-Origin'' = Some ''*''"
  using assms by (simp add: summerize_url_def process_url_def preflight_def)

theorem options_preflight_witness:
  "summerize_url demo_env demo_store \<lparr>req_method = js ''OPTIONS'', req_json = Inl []\<rparr> =
     (preflight, demo_store, []) \<and>
   process_url demo_env demo_store \<lparr>req_method = js ''OPTIONS'', req_json = Inl []\<rparr> =
     (preflight, demo_store, [])"
  using options_preflight
    [of "\<lparr>req_method = js ''OPTIONS'', req_json = Inl []\<rparr>" demo_env demo_store]
  by simp

text \<open>
  C9. The required fields are tested for truthiness. In a request (not OPTIONS) whose
  body is an object, a falsy \<open>url\<close> or \<open>prompt_id\<close> (for \<open>summerize_url\<close>), or a falsy
  \<open>url_id\<close> or \<open>prompt_id\<close> (for \<open>process-url\<close>), is answered with status 400 and the
  "is required" message of that field, which is also the answer to the same request
  without the field; the number 0 and the empty string are falsy. The store is unchanged
  and nothing is read, written or fetched.
\<close>

theorem falsy_fields_rejected:
  assumes "req_method req \<noteq> js ''OPTIONS''" and "req_json req = Inr (Obj kvs)"
  shows
    "(\<not> truthy (js_get (Obj kvs) ''url'') \<longrightarrow>
        summerize_url e st req =
          (json_response 400 [(''error'', Str (js ''URL is required''))], st, []) \<and>
        summerize_url e st req = summerize_url e st (without_field ''url'' req)) \<and>
     (truthy (js_get (Obj kvs) ''url'') \<and> \<not> truthy (js_get (Obj kvs) ''prompt_id'') \<longrightarrow>
        summerize_url e st req =
          (json_response 400 [(''error'', Str (js ''prompt_id is required''))], st, []) \<and>
        summerize_url e st req = summerize_url e st (without_field ''prompt_id'' req)) \<and>
     (\<not> truthy (js_get (Obj kvs) ''url_id'') \<longrightarrow>
        process_url e st req =
          (json_response 400 [(''error'', Str (js ''url_id is required''))], st, []) \<and>
        process_url e st req = process_url e st (without_field ''url_id'' req)) \<and>
     (truthy (js_get (Obj kvs) ''url_id'') \<and> \<not> truthy (js_get (Obj kvs) ''prompt_id'') \<longrightarrow>
        process_url e st req =
          (json_response 400 [(''error'', Str (js ''prompt_id is required''))], st, []) \<and>
        process_url e st req = process_url e st (without_field ''prompt_id'' req)) \<and>
     \<not> truthy (Num 0) \<and> \<not> truthy (Str []) \<and> status (json_response 400 kvs') = 400"
proof -
  have 1: "js_get (Obj (filter (\<lambda>kv. fst kv \<noteq> js ''url'') kvs)) ''url'' = Undefined"
    by (rule js_get_without_same)
  have 2: "js_get (Obj (filter (\<lambda>kv. fst kv \<noteq> js ''prompt_id'') kvs)) ''prompt_id'' = Undefined"
    by (rule js_get_without_same)
  have 3: "js_get (Obj (filter (\<lambda>kv. fst kv \<noteq> js ''url_id'') kvs)) ''url_id'' = Undefined"
    by (rule js_get_without_same)
  have 4: "js_get (Obj (filter (\<lambda>kv. fst kv \<noteq> js ''prompt_id'') kvs)) ''url'' =
      js_get (Obj kvs) ''url''"
    by (rule js_get_without_other) (simp add: js_def cu_def)
  have 5: "js_get (Obj (filter (\<lambda>kv. fst kv \<noteq> js ''prompt_id'') kvs)) ''url_id'' =
      js_get (Obj kvs) ''url_id''"
    by (rule js_get_without_other) (simp add: js_def cu_def)
  show ?thesis
    using assms 1 2 3 4 5
    by (simp add: summerize_url_def process_url_def without_field_def nullish_def Let_def
          json_response_def del: js_get.simps)
qed

theorem falsy_fields_rejected_witness:
  "summerize_url demo_env demo_store (post [(''url'', Str []), (''prompt_id'', Num 1)]) =
     (json_response 400 [(''error'', Str (js ''URL is required''))], demo_store, []) \<and>
   process_url demo_env demo_store (post [(''url_id'', Num 0), (''prompt_id'', Num 1)]) =
     (json_response 400 [(''error'', Str (js ''url_id is required''))], demo_store, [])"
  using falsy_fields_rejected
    [of "post [(''url'', Str []), (''prompt_id'', Num 1)]"
        "map (\<lambda>(k, v). (js k, v)) [(''url'', Str []), (''prompt_id'', Num 1)]"
        demo_env demo_store]
    falsy_fields_rejected
    [of "post [(''url_id'', Num 0), (''prompt_id'', Num 1)]"
        "map (\<lambda>(k, v). (js k, v)) [(''url_id'', Num 0), (''prompt_id'', Num 1)]"
        demo_env demo_store]
  by (simp add: post_def js_def cu_def)




section \<open>Runs that reach the completion service\<close>

text \<open>
  Object keys and header names are ASCII literals, and \<open>js\<close> is injective, so a
  property of a response body is read off the list it was built from.
\<close>

lemma cu_eq_iff: "cu a = cu b \<longleftrightarrow> a = b"
proof
  assume "cu a = cu b"
  then have "unat (of_nat (of_char a) :: 16 word) = unat (of_nat (of_char b) :: 16 word)"
    by (simp add: cu_def of_nat_of_char)
  moreover have "of_char c < (65536::nat)" for c
    by (rule less_trans [OF nat_of_char_less_256]) simp
  ultimately have "(of_char a :: nat) = of_char b"
    by (simp add: unat_of_nat)
  then show "a = b" by simp
qed simp

lemma js_eq_iff: "js a = js b \<longleftrightarrow> a = b"
proof -
  have "inj cu" by (simp add: inj_on_def cu_eq_iff)
  then show ?thesis by (simp add: js_def inj_map_eq_map)
qed




lemma select_single_Inr:
  "select_single e t row_id rows v = Inr r \<Longrightarrow> r \<in> set rows \<and> key_of e v = Some (row_id r)"
proof -
  assume a: "select_single e t row_id rows v = Inr r"
  then obtain k where k: "key_of e v = Some k"
    by (cases "key_of e v") (auto simp: select_single_def)
  with a have "filter (\<lambda>x. row_id x = k) rows = [r]"
    by (auto simp: select_single_def split: list.splits)
  then have "r \<in> set (filter (\<lambda>x. row_id x = k) rows)" by simp
  with k show ?thesis by simp
qed

lemma scrape_Inr:
  "scrape e url = Inr t \<Longrightarrow>
     \<exists>reply html. http_get e url = Inr reply \<and> reply_ok reply \<and>
       reply_text reply = Inr html \<and> t = extractText html"
  by (auto simp: scrape_def split: sum.splits if_splits)

lemma nullish_js_get: "nullish v \<Longrightarrow> nullish (js_get v k)"
  by (auto simp: nullish_def)

lemma summery_row_of_fields:
  "js_get (summery_row_of u p t a) ''url_id'' = u"
  "js_get (summery_row_of u p t a) ''prompt_id'' = p"
  "js_get (summery_row_of u p t a) ''scraped_data'' = Str t"
  "js_get (summery_row_of u p t a) ''ai_response'' = a"
  by (simp_all add: summery_row_of_def js_eq_iff)

lemma summerize_success_fields:
  "status (summerize_success i p a s) = 200"
  "body_field (summerize_success i p a s) ''success'' = Bool True"
  "body_field (summerize_success i p a s) ''url_id'' = Num (of_int (u_id i))"
  "body_field (summerize_success i p a s) ''summary'' = a"
  "body_field (summerize_success i p a s) ''processed'' = Bool True"
  "body_field (summerize_success i p a s) ''summery_id'' = s"
  by (simp_all add: summerize_success_def json_response_def body_field_def js_def cu_def)

lemma process_success_fields:
  "status (process_success u d p t a s) = 200"
  "body_field (process_success u d p t a s) ''success'' = Bool True"
  "body_field (process_success u d p t a s) ''url_id'' = u"
  "body_field (process_success u d p t a s) ''ai_response'' = a"
  "body_field (process_success u d p t a s) ''summery_id'' = s"
  by (simp_all add: process_success_def json_response_def body_field_def js_def cu_def)

lemma length_extractText: "length (extractText html) \<le> 8000"
  by (simp add: extractText_spec_extract length_spec_extract)



lemma summerize_url_persist:
  assumes run: "summerize_url e st req = (r, st', tr)"
    and ins: "StoreInsert ''url_summery'' row \<in> set tr"
  shows "\<exists>b insertData promptData scrapedText key aiResponse.
      req_json req = Inr b \<and>
      insert_urls e (url_row_of e (js_get b ''url'')) = Inr insertData \<and>
      urls st' = urls st @ [insertData] \<and>
      select_single e ''prompts'' p_id (prompts st) (js_get b ''prompt_id'') = Inr promptData \<and>
      scrape e (js_get b ''url'') = Inr scrapedText \<and>
      ChatCompletion key
        (chat_body (p_prompt promptData) (template e (js_get b ''url'')) scrapedText) \<in> set tr \<and>
      ask_chatgpt e key
        (chat_body (p_prompt promptData) (template e (js_get b ''url'')) scrapedText) =
        Inr aiResponse \<and>
      row = summery_row_of (Num (of_int (u_id insertData))) (js_get b ''prompt_id'')
              scrapedText aiResponse \<and>
      (case insert_url_summery e row of
         Inl summeryError \<Rightarrow>
           r = summerize_success insertData promptData aiResponse Null \<and>
           url_summery st' = url_summery st \<and>
           ConsoleError ''Failed to save to url_summery:'' \<in> set tr
       | Inr summeryData \<Rightarrow>
           r = summerize_success insertData promptData aiResponse
                 (or_null (Num (of_int (s_id summeryData)))) \<and>
           url_summery st' = url_summery st @ [summeryData])"
  using assms
  by (auto simp: summerize_url_def summerize_saved_def url_row_of_def summery_row_of_def Let_def
        split: sum.splits option.splits if_splits prod.splits)

lemma process_url_persist:
  assumes run: "process_url e st req = (r, st', tr)"
    and ins: "StoreInsert ''url_summery'' row \<in> set tr"
  shows "\<exists>b urlData promptData scrapedText key aiResponse.
      req_json req = Inr b \<and>
      select_single e ''urls'' u_id (urls st) (js_get b ''url_id'') = Inr urlData \<and>
      urls st' = urls st \<and>
      select_single e ''prompts'' p_id (prompts st) (js_get b ''prompt_id'') = Inr promptData \<and>
      scrape e (Str (u_url urlData)) = Inr scrapedText \<and>
      ChatCompletion key
        (chat_body (p_prompt promptData) (u_url urlData) scrapedText) \<in> set tr \<and>
      ask_chatgpt e key
        (chat_body (p_prompt promptData) (u_url urlData) scrapedText) = Inr aiResponse \<and>
      row = summery_row_of (js_get b ''url_id'') (js_get b ''prompt_id'')
              scrapedText aiResponse \<and>
      (case insert_url_summery e row of
         Inl summeryError \<Rightarrow>
           r = process_success (js_get b ''url_id'') urlData promptData scrapedText
                 aiResponse Null \<and>
           st' = st \<and>
           ConsoleError ''Failed to save to url_summery:'' \<in> set tr
       | Inr summeryData \<Rightarrow>
           r = process_success (js_get b ''url_id'') urlData promptData scrapedText
                 aiResponse (or_null (Num (of_int (s_id summeryData)))) \<and>
           st' = st\<lparr>url_summery := url_summery st @ [summeryData]\<rparr>)"
  using assms
  by (auto simp: process_url_def process_found_def summery_row_of_def Let_def
        split: sum.splits option.splits if_splits prod.splits)

lemma summerize_url_completion:
  assumes run: "summerize_url e st req = (r, st', tr)"
    and c: "ChatCompletion key rq \<in> set tr"
  shows "\<exists>b insertData promptData scrapedText.
      req_json req = Inr b \<and>
      insert_urls e (url_row_of e (js_get b ''url'')) = Inr insertData \<and>
      urls st' = urls st @ [insertData] \<and>
      select_single e ''prompts'' p_id (prompts st) (js_get b ''prompt_id'') = Inr promptData \<and>
      scrape e (js_get b ''url'') = Inr scrapedText \<and>
      HttpGet (js_get b ''url'') \<in> set tr \<and>
      configured_key e = Some key \<and>
      rq = chat_body (p_prompt promptData) (template e (js_get b ''url'')) scrapedText \<and>
      (\<forall>row. StoreInsert ''url_summery'' row \<in> set tr \<longrightarrow>
         js_get row ''scraped_data'' = Str scrapedText) \<and>
      (case ask_chatgpt e key rq of
         Inl aiError \<Rightarrow>
           r = json_response 500
                 [(''error'', Str (js ''URL saved but AI processing failed'')),
                  (''details'', Str aiError),
                  (''url_id'', Num (of_int (u_id insertData))),
                  (''url'', Str (u_url insertData)),
                  (''created_at'', Str (u_created_at insertData)),
                  (''processed'', Bool False)] \<and>
           url_summery st' = url_summery st \<and>
           (\<forall>row. StoreInsert ''url_summery'' row \<notin> set tr)
       | Inr aiResponse \<Rightarrow>
           StoreInsert ''url_summery''
             (summery_row_of (Num (of_int (u_id insertData))) (js_get b ''prompt_id'')
                scrapedText aiResponse) \<in> set tr \<and>
           (\<forall>row. StoreInsert ''url_summery'' row \<in> set tr \<longrightarrow>
              row = summery_row_of (Num (of_int (u_id insertData))) (js_get b ''prompt_id'')
                      scrapedText aiResponse) \<and>
           status r = 200 \<and> body_field r ''summary'' = aiResponse)"
  using assms
  by (auto simp: summerize_url_def summerize_saved_def url_row_of_def summery_row_of_def Let_def
        summerize_success_fields js_eq_iff
        split: sum.splits option.splits if_splits prod.splits)

lemma process_url_completion:
  assumes run: "process_url e st req = (r, st', tr)"
    and c: "ChatCompletion key rq \<in> set tr"
  shows "\<exists>b urlData promptData scrapedText.
      req_json req = Inr b \<and>
      select_single e ''urls'' u_id (urls st) (js_get b ''url_id'') = Inr urlData \<and>
      select_single e ''prompts'' p_id (prompts st) (js_get b ''prompt_id'') = Inr promptData \<and>
      scrape e (Str (u_url urlData)) = Inr scrapedText \<and>
      HttpGet (Str (u_url urlData)) \<in> set tr \<and>
      configured_key e = Some key \<and>
      rq = chat_body (p_prompt promptData) (u_url urlData) scrapedText \<and>
      (\<forall>row. StoreInsert ''url_summery'' row \<in> set tr \<longrightarrow>
         js_get row ''scraped_data'' = Str scrapedText) \<and>
      (case ask_chatgpt e key rq of
         Inl aiError \<Rightarrow>
           r = json_response 500
                 [(''error'', Str (js ''Failed to get AI response'')),
                  (''details'', Str aiError)] \<and>
           st' = st \<and>
           (\<forall>row. StoreInsert ''url_summery'' row \<notin> set tr)
       | Inr aiResponse \<Rightarrow>
           StoreInsert ''url_summery''
             (summery_row_of (js_get b ''url_id'') (js_get b ''prompt_id'')
                scrapedText aiResponse) \<in> set tr \<and>
           (\<forall>row. StoreInsert ''url_summery'' row \<in> set tr \<longrightarrow>
              row = summery_row_of (js_get b ''url_id'') (js_get b ''prompt_id'')
                      scrapedText aiResponse) \<and>
           status r = 200 \<and> body_field r ''ai_response'' = aiResponse)"
  using assms
  by (auto simp: process_url_def process_found_def summery_row_of_def Let_def
        process_success_fields js_eq_iff
        split: sum.splits option.splits if_splits prod.splits)

lemma summerize_url_scraped:
  assumes run: "summerize_url e st req = (r, st', tr)"
    and c: "ChatCompletion key rq \<in> set tr"
  shows "\<exists>b (promptData :: prompt_row) scrapedText.
      scrape e (js_get b ''url'') = Inr scrapedText \<and>
      HttpGet (js_get b ''url'') \<in> set tr \<and>
      rq = chat_body (p_prompt promptData) (template e (js_get b ''url'')) scrapedText \<and>
      (\<forall>row. StoreInsert ''url_summery'' row \<in> set tr \<longrightarrow>
         js_get row ''scraped_data'' = Str scrapedText)"
  using summerize_url_completion [OF run c]
  by blast

lemma process_url_scraped:
  assumes run: "process_url e st req = (r, st', tr)"
    and c: "ChatCompletion key rq \<in> set tr"
  shows "\<exists>(urlData :: url_row) (promptData :: prompt_row) scrapedText.
      scrape e (Str (u_url urlData)) = Inr scrapedText \<and>
      HttpGet (Str (u_url urlData)) \<in> set tr \<and>
      rq = chat_body (p_prompt promptData) (u_url urlData) scrapedText \<and>
      (\<forall>row. StoreInsert ''url_summery'' row \<in> set tr \<longrightarrow>
         js_get row ''scraped_data'' = Str scrapedText)"
  using process_url_completion [OF run c]
  by blast

lemma summerize_url_answered:
  assumes "summerize_url e st req = (r, st', tr)"
    and "ChatCompletion key rq \<in> set tr"
    and "ask_chatgpt e key rq = Inr out"
  shows "\<exists>u p t. StoreInsert ''url_summery'' (summery_row_of u p t out) \<in> set tr \<and>
      status r = 200 \<and> body_field r ''summary'' = out"
  using assms
  by (auto simp: summerize_url_def summerize_saved_def summery_row_of_def Let_def
        summerize_success_fields
        split: sum.splits option.splits if_splits prod.splits)

lemma process_url_answered:
  assumes "process_url e st req = (r, st', tr)"
    and "ChatCompletion key rq \<in> set tr"
    and "ask_chatgpt e key rq = Inr out"
  shows "\<exists>u p t. StoreInsert ''url_summery'' (summery_row_of u p t out) \<in> set tr \<and>
      status r = 200 \<and> body_field r ''ai_response'' = out"
  using assms
  by (auto simp: process_url_def process_found_def summery_row_of_def Let_def
        process_success_fields
        split: sum.splits option.splits if_splits prod.splits)

text \<open>
  The converse: what a run does when each step on the way succeeds. A request that passes
  the validation and whose URL record is stored (respectively found) enters the pipeline;
  \<open>summerize_saved_errors\<close> lists the outcome of the pipeline for each step that can
  fail, and the two \<open>sends\<close> lemmas say that a page that is fetched is sent to the
  completion service, and stored once the service has answered.
\<close>

lemma truthy_not_nullish: "truthy (js_get b k) \<Longrightarrow> \<not> nullish b"
  by (auto simp: nullish_def)

lemma summerize_url_reaches:
  assumes "summerize_url e st req = (r, st', tr)"
    and "req_method req \<noteq> js ''OPTIONS''" and "req_json req = Inr b"
    and "truthy (js_get b ''url'')" and "truthy (js_get b ''prompt_id'')"
    and "insert_urls e (url_row_of e (js_get b ''url'')) = Inr insertData"
  shows "summerize_saved e (st\<lparr>urls := urls st @ [insertData]\<rparr>) insertData
        (js_get b ''url'') (js_get b ''prompt_id'') = (r, st', tl tr) \<and>
      tr = StoreInsert ''urls'' (url_row_of e (js_get b ''url'')) # tl tr"
  using assms truthy_not_nullish [OF assms(4)]
  by (auto simp: summerize_url_def url_row_of_def Let_def split: prod.splits)

lemma summerize_saved_errors:
  assumes "summerize_saved e st insertData url prompt_id = (r, st', tr)"
  shows
    "(select_single e ''prompts'' p_id (prompts st) prompt_id = Inl promptError \<longrightarrow>
        status r = 404 \<and>
        body r = Some (Obj
          [(js ''error'', Str (js ''Failed to fetch prompt from database'')),
           (js ''details'', Str (pg_message promptError)),
           (js ''url_id'', Num (of_int (u_id insertData)))])) \<and>
     (select_single e ''prompts'' p_id (prompts st) prompt_id = Inr promptData \<longrightarrow>
        (scrape e url = Inl scrapeError \<longrightarrow>
           status r = 500 \<and>
           body r = Some (Obj
             [(js ''error'', Str (js ''Failed to scrape URL content'')),
              (js ''details'', Str scrapeError),
              (js ''url_id'', Num (of_int (u_id insertData)))])) \<and>
        (scrape e url = Inr scrapedText \<longrightarrow>
           (configured_key e = None \<longrightarrow>
              status r = 500 \<and>
              body r = Some (Obj
                [(js ''error'', Str (js ''OpenAI API key not configured'')),
                 (js ''url_id'', Num (of_int (u_id insertData)))])) \<and>
           (configured_key e = Some key \<longrightarrow>
              ChatCompletion key
                (chat_body (p_prompt promptData) (template e url) scrapedText) \<in> set tr \<and>
              (ask_chatgpt e key
                 (chat_body (p_prompt promptData) (template e url) scrapedText) = Inl aiError \<longrightarrow>
                 status r = 500 \<and>
                 body r = Some (Obj
                   [(js ''error'', Str (js ''URL saved but AI processing failed'')),
                    (js ''details'', Str aiError),
                    (js ''url_id'', Num (of_int (u_id insertData))),
                    (js ''url'', Str (u_url insertData)),
                    (js ''created_at'', Str (u_created_at insertData)),
                    (js ''processed'', Bool False)])) \<and>
              (ask_chatgpt e key
                 (chat_body (p_prompt promptData) (template e url) scrapedText) = Inr aiResponse \<longrightarrow>
                 status r = 200 \<and>
                 StoreInsert ''url_summery''
                   (summery_row_of (Num (of_int (u_id insertData))) prompt_id scrapedText
                      aiResponse) \<in> set tr \<and>
                 (insert_url_summery e
                    (summery_row_of (Num (of_int (u_id insertData))) prompt_id scrapedText
                       aiResponse) = Inr summeryData \<longrightarrow>
                    url_summery st' = url_summery st @ [summeryData])))))"
  using assms
  by (auto simp: summerize_saved_def summery_row_of_def Let_def json_response_def
        summerize_success_fields split: sum.splits)

lemma process_found_sends:
  assumes "process_found e st url_id prompt_id urlData promptData = (r, st', tr)"
    and "scrape e (Str (u_url urlData)) = Inr scrapedText"
    and "configured_key e = Some key"
  shows
    "ChatCompletion key (chat_body (p_prompt promptData) (u_url urlData) scrapedText) \<in> set tr \<and>
     (ask_chatgpt e key (chat_body (p_prompt promptData) (u_url urlData) scrapedText) =
        Inr aiResponse \<longrightarrow>
        status r = 200 \<and>
        StoreInsert ''url_summery''
          (summery_row_of url_id prompt_id scrapedText aiResponse) \<in> set tr \<and>
        (insert_url_summery e (summery_row_of url_id prompt_id scrapedText aiResponse) =
           Inr summeryData \<longrightarrow>
           url_summery st' = url_summery st @ [summeryData]))"
  using assms
  by (auto simp: process_found_def summery_row_of_def Let_def process_success_fields
        split: sum.splits)

lemma process_url_reaches:
  assumes "process_url e st req = (r, st', tr)"
    and "req_method req \<noteq> js ''OPTIONS''" and "req_json req = Inr b"
    and "truthy (js_get b ''url_id'')" and "truthy (js_get b ''prompt_id'')"
    and "select_single e ''urls'' u_id (urls st) (js_get b ''url_id'') = Inr urlData"
    and "select_single e ''prompts'' p_id (prompts st) (js_get b ''prompt_id'') = Inr promptData"
  shows "process_found e st (js_get b ''url_id'') (js_get b ''prompt_id'') urlData promptData =
       (r, st', tl (tl tr)) \<and>
     tr = StoreSelect ''urls'' (js_get b ''url_id'') #
          StoreSelect ''prompts'' (js_get b ''prompt_id'') # tl (tl tr)"
  using assms truthy_not_nullish [OF assms(4)]
  by (auto simp: process_url_def Let_def split: prod.splits)

lemma scrape_ok:
  "http_get e url = Inr reply \<Longrightarrow> reply_ok reply \<Longrightarrow> reply_text reply = Inr page \<Longrightarrow>
     scrape e url = Inr (extractText page)"
  by (simp add: scrape_def)

lemma summerize_url_sends:
  assumes run: "summerize_url e st req = (r, st', tr)"
    and "req_method req \<noteq> js ''OPTIONS''" and "req_json req = Inr b"
    and "truthy (js_get b ''url'')" and "truthy (js_get b ''prompt_id'')"
    and "insert_urls e (url_row_of e (js_get b ''url'')) = Inr insertData"
    and sel: "select_single e ''prompts'' p_id (prompts st) (js_get b ''prompt_id'') = Inr promptData"
    and "http_get e (js_get b ''url'') = Inr reply" and "reply_ok reply"
    and "reply_text reply = Inr page"
    and ck: "configured_key e = Some key"
  shows
    "ChatCompletion key
       (chat_body (p_prompt promptData) (template e (js_get b ''url'')) (extractText page))
       \<in> set tr \<and>
     (ask_chatgpt e key
        (chat_body (p_prompt promptData) (template e (js_get b ''url'')) (extractText page)) =
        Inr aiResponse \<longrightarrow>
        status r = 200 \<and>
        StoreInsert ''url_summery''
          (summery_row_of (Num (of_int (u_id insertData))) (js_get b ''prompt_id'')
             (extractText page) aiResponse) \<in> set tr \<and>
        (insert_url_summery e
           (summery_row_of (Num (of_int (u_id insertData))) (js_get b ''prompt_id'')
              (extractText page) aiResponse) = Inr summeryData \<longrightarrow>
           url_summery st' = url_summery st @ [summeryData]))"
proof -
  from summerize_url_reaches [OF assms(1-6)] have
    saved: "summerize_saved e (st\<lparr>urls := urls st @ [insertData]\<rparr>) insertData
        (js_get b ''url'') (js_get b ''prompt_id'') = (r, st', tl tr)"
    and tr: "tr = StoreInsert ''urls'' (url_row_of e (js_get b ''url'')) # tl tr"
    by blast+
  have sc: "scrape e (js_get b ''url'') = Inr (extractText page)"
    using assms(8-10) by (rule scrape_ok)
  have mem: "x \<in> set (tl tr) \<Longrightarrow> x \<in> set tr" for x
    by (subst tr) simp
  from summerize_saved_errors [OF saved, THEN conjunct2,
      of promptData _ "extractText page" key _ aiResponse summeryData] sel sc ck
  show ?thesis by (auto intro: mem)
qed

lemma process_url_sends:
  assumes run: "process_url e st req = (r, st', tr)"
    and "req_method req \<noteq> js ''OPTIONS''" and "req_json req = Inr b"
    and "truthy (js_get b ''url_id'')" and "truthy (js_get b ''prompt_id'')"
    and "select_single e ''urls'' u_id (urls st) (js_get b ''url_id'') = Inr urlData"
    and "select_single e ''prompts'' p_id (prompts st) (js_get b ''prompt_id'') = Inr promptData"
    and "http_get e (Str (u_url urlData)) = Inr reply" and "reply_ok reply"
    and "reply_text reply = Inr page"
    and ck: "configured_key e = Some key"
  shows
    "ChatCompletion key (chat_body (p_prompt promptData) (u_url urlData) (extractText page))
       \<in> set tr \<and>
     (ask_chatgpt e key (chat_body (p_prompt promptData) (u_url urlData) (extractText page)) =
        Inr aiResponse \<longrightarrow>
        status r = 200 \<and>
        StoreInsert ''url_summery''
          (summery_row_of (js_get b ''url_id'') (js_get b ''prompt_id'')
             (extractText page) aiResponse) \<in> set tr \<and>
        (insert_url_summery e
           (summery_row_of (js_get b ''url_id'') (js_get b ''prompt_id'')
              (extractText page) aiResponse) = Inr summeryData \<longrightarrow>
           url_summery st' = url_summery st @ [summeryData]))"
proof -
  from process_url_reaches [OF assms(1-7)] have
    found: "process_found e st (js_get b ''url_id'') (js_get b ''prompt_id'') urlData promptData =
       (r, st', tl (tl tr))"
    and tr: "tr = StoreSelect ''urls'' (js_get b ''url_id'') #
          StoreSelect ''prompts'' (js_get b ''prompt_id'') # tl (tl tr)"
    by blast+
  have sc: "scrape e (Str (u_url urlData)) = Inr (extractText page)"
    using assms(8-10) by (rule scrape_ok)
  have mem: "x \<in> set (tl (tl tr)) \<Longrightarrow> x \<in> set tr" for x
    by (subst tr) simp
  from process_found_sends [OF found sc ck, of aiResponse summeryData]
  show ?thesis by (auto intro: mem)
qed

text \<open>Sample runs, evaluated.\<close>

lemma demo_ingest_failing_write:
  "summerize_url demo_env_failing_write demo_store demo_ingest =
     (summerize_success
        \<lparr>u_id = 2, u_created_at = js ''2024-01-02T00:00:00+00:00'',
          u_url = js ''https://example.com'', u_caption = None\<rparr>
        \<lparr>p_id = 1, p_created_at = js ''2024-01-01T00:00:00+00:00'',
          p_prompt_name = js ''General Summary'', p_prompt = js ''Summarize this page.'',
          p_description = None\<rparr>
        (Str (js ''A short page.'')) Null,
      demo_store\<lparr>urls := urls demo_store @
        [\<lparr>u_id = 2, u_created_at = js ''2024-01-02T00:00:00+00:00'',
          u_url = js ''https://example.com'', u_caption = None\<rparr>]\<rparr>,
      [StoreInsert ''urls'' (url_row_of demo_env (Str (js ''https://example.com''))),
       StoreSelect ''prompts'' (Num 1),
       HttpGet (Str (js ''https://example.com'')),
       ChatCompletion (js ''sk-test'')
         (chat_body (js ''Summarize this page.'') (js ''https://example.com'') (js ''Hello World'')),
       StoreInsert ''url_summery''
         (summery_row_of (Num 2) (Num 1) (js ''Hello World'') (Str (js ''A short page.''))),
       ConsoleError ''Failed to save to url_summery:''])"
  by (simp add: demo_defs handler_defs text_defs)

lemma demo_analyze_failing_write:
  "process_url demo_env_failing_write demo_store demo_analyze =
     (process_success (Num 1)
        \<lparr>u_id = 1, u_created_at = js ''2024-01-01T00:00:00+00:00'',
          u_url = js ''https://example.com'', u_caption = Some (js ''Example'')\<rparr>
        \<lparr>p_id = 1, p_created_at = js ''2024-01-01T00:00:00+00:00'',
          p_prompt_name = js ''General Summary'', p_prompt = js ''Summarize this page.'',
          p_description = None\<rparr>
        (js ''Hello World'') (Str (js ''A short page.'')) Null,
      demo_store,
      [StoreSelect ''urls'' (Num 1),
       StoreSelect ''prompts'' (Num 1),
       HttpGet (Str (js ''https://example.com'')),
       ChatCompletion (js ''sk-test'')
         (chat_body (js ''Summarize this page.'') (js ''https://example.com'') (js ''Hello World'')),
       StoreInsert ''url_summery''
         (summery_row_of (Num 1) (Num 1) (js ''Hello World'') (Str (js ''A short page.''))),
       ConsoleError ''Failed to save to url_summery:''])"
  by (simp add: demo_defs handler_defs text_defs)






lemma demo_ask:
  "ask_chatgpt demo_env k q = Inr (Str (js ''A short page.''))"
  by (simp add: ask_chatgpt_def demo_env_def demo_completion_def reply_ok_def
        first_choice_content_def nullish_def js_get_opt_def js_eq_iff)
     (simp add: js_def)

lemma demo_page_text: "extractText (js ''<html><body><script>x</script>Hello <b>World</b></body></html>'') =
    js ''Hello World''"
  by (simp add: text_defs)

section \<open>Claims about the pipeline\<close>

text \<open>
  C1. In both functions, when the insert into \<open>url_summery\<close> fails (it is reached only
  after the completion call has succeeded), the response is still the success response:
  status 200, \<open>success: true\<close>, the model output (\<open>summary\<close>, respectively
  \<open>ai_response\<close>), the \<open>url_id\<close> of the stored URL record, and \<open>summery_id: null\<close>.
  The failure is written to the console, no analysis row is added, and nothing else
  changes.
\<close>

theorem summery_write_failure_not_fatal:
  assumes "insert_url_summery e row = Inl summeryError"
    and "StoreInsert ''url_summery'' row \<in> set tr"
  shows
    "(summerize_url e st req = (r, st', tr) \<longrightarrow>
        status r = 200 \<and> body_field r ''success'' = Bool True \<and>
        body_field r ''summery_id'' = Null \<and>
        body_field r ''summary'' = js_get row ''ai_response'' \<and>
        body_field r ''url_id'' = js_get row ''url_id'' \<and>
        (\<exists>u \<in> set (urls st'). body_field r ''url_id'' = Num (of_int (u_id u))) \<and>
        (\<exists>key rq. ChatCompletion key rq \<in> set tr \<and>
           ask_chatgpt e key rq = Inr (js_get row ''ai_response'')) \<and>
        url_summery st' = url_summery st \<and>
        ConsoleError ''Failed to save to url_summery:'' \<in> set tr) \<and>
     (process_url e st req = (r, st', tr) \<longrightarrow>
        status r = 200 \<and> body_field r ''success'' = Bool True \<and>
        body_field r ''summery_id'' = Null \<and>
        body_field r ''ai_response'' = js_get row ''ai_response'' \<and>
        body_field r ''url_id'' = js_get row ''url_id'' \<and>
        (\<exists>u \<in> set (urls st). key_of e (body_field r ''url_id'') = Some (u_id u)) \<and>
        (\<exists>key rq. ChatCompletion key rq \<in> set tr \<and>
           ask_chatgpt e key rq = Inr (js_get row ''ai_response'')) \<and>
        st' = st \<and>
        ConsoleError ''Failed to save to url_summery:'' \<in> set tr)"
proof (rule conjI; rule impI)
  assume run: "summerize_url e st req = (r, st', tr)"
  from summerize_url_persist [OF run assms(2)] assms(1)
  obtain insertData promptData aiResponse key rq u p t where
    "r = summerize_success insertData promptData aiResponse Null"
    "row = summery_row_of (Num (of_int (u_id insertData))) p t aiResponse"
    "urls st' = urls st @ [insertData]"
    "ChatCompletion key rq \<in> set tr" "ask_chatgpt e key rq = Inr aiResponse"
    "url_summery st' = url_summery st"
    "ConsoleError ''Failed to save to url_summery:'' \<in> set tr"
    by auto
  then show "status r = 200 \<and> body_field r ''success'' = Bool True \<and>
        body_field r ''summery_id'' = Null \<and>
        body_field r ''summary'' = js_get row ''ai_response'' \<and>
        body_field r ''url_id'' = js_get row ''url_id'' \<and>
        (\<exists>u \<in> set (urls st'). body_field r ''url_id'' = Num (of_int (u_id u))) \<and>
        (\<exists>key rq. ChatCompletion key rq \<in> set tr \<and>
           ask_chatgpt e key rq = Inr (js_get row ''ai_response'')) \<and>
        url_summery st' = url_summery st \<and>
        ConsoleError ''Failed to save to url_summery:'' \<in> set tr"
    by (auto simp: summerize_success_fields summery_row_of_fields)
next
  assume run: "process_url e st req = (r, st', tr)"
  from process_url_persist [OF run assms(2)] assms(1)
  obtain b urlData promptData aiResponse key rq t where
    "r = process_success (js_get b ''url_id'') urlData promptData t aiResponse Null"
    "row = summery_row_of (js_get b ''url_id'') (js_get b ''prompt_id'') t aiResponse"
    "select_single e ''urls'' u_id (urls st) (js_get b ''url_id'') = Inr urlData"
    "ChatCompletion key rq \<in> set tr" "ask_chatgpt e key rq = Inr aiResponse"
    "st' = st"
    "ConsoleError ''Failed to save to url_summery:'' \<in> set tr"
    by auto
  then show "status r = 200 \<and> body_field r ''success'' = Bool True \<and>
        body_field r ''summery_id'' = Null \<and>
        body_field r ''ai_response'' = js_get row ''ai_response'' \<and>
        body_field r ''url_id'' = js_get row ''url_id'' \<and>
        (\<exists>u \<in> set (urls st). key_of e (body_field r ''url_id'') = Some (u_id u)) \<and>
        (\<exists>key rq. ChatCompletion key rq \<in> set tr \<and>
           ask_chatgpt e key rq = Inr (js_get row ''ai_response'')) \<and>
        st' = st \<and>
        ConsoleError ''Failed to save to url_summery:'' \<in> set tr"
    by (auto simp: process_success_fields summery_row_of_fields dest: select_single_Inr)
qed

theorem summery_write_failure_not_fatal_witness:
  "status (fst (summerize_url demo_env_failing_write demo_store demo_ingest)) = 200 \<and>
   body_field (fst (summerize_url demo_env_failing_write demo_store demo_ingest)) ''summary'' =
     Str (js ''A short page.'') \<and>
   body_field (fst (summerize_url demo_env_failing_write demo_store demo_ingest)) ''summery_id'' =
     Null \<and>
   status (fst (process_url demo_env_failing_write demo_store demo_analyze)) = 200 \<and>
   body_field (fst (process_url demo_env_failing_write demo_store demo_analyze)) ''ai_response'' =
     Str (js ''A short page.'') \<and>
   body_field (fst (process_url demo_env_failing_write demo_store demo_analyze)) ''summery_id'' =
     Null"
proof -
  have f: "insert_url_summery demo_env_failing_write
      (summery_row_of (Num 2) (Num 1) (js ''Hello World'') (Str (js ''A short page.''))) =
      Inl \<lparr>pg_message = js ''violates foreign key constraint'', pg_code = js ''23503'',
           pg_hint = None\<rparr>"
    by (simp add: demo_env_failing_write_def)
  have g: "insert_url_summery demo_env_failing_write
      (summery_row_of (Num 1) (Num 1) (js ''Hello World'') (Str (js ''A short page.''))) =
      Inl \<lparr>pg_message = js ''violates foreign key constraint'', pg_code = js ''23503'',
           pg_hint = None\<rparr>"
    by (simp add: demo_env_failing_write_def)
  have 1: "status (fst (summerize_url demo_env_failing_write demo_store demo_ingest)) = 200 \<and>
     body_field (fst (summerize_url demo_env_failing_write demo_store demo_ingest)) ''summary'' =
       Str (js ''A short page.'') \<and>
     body_field (fst (summerize_url demo_env_failing_write demo_store demo_ingest)) ''summery_id'' =
       Null"
    using summery_write_failure_not_fatal [OF f, THEN conjunct1, rule_format,
        OF _ demo_ingest_failing_write]
    by (simp add: demo_ingest_failing_write summery_row_of_fields)
  have 2: "status (fst (process_url demo_env_failing_write demo_store demo_analyze)) = 200 \<and>
     body_field (fst (process_url demo_env_failing_write demo_store demo_analyze)) ''ai_response'' =
       Str (js ''A short page.'') \<and>
     body_field (fst (process_url demo_env_failing_write demo_store demo_analyze)) ''summery_id'' =
       Null"
    using summery_write_failure_not_fatal [OF g, THEN conjunct2, rule_format,
        OF _ demo_analyze_failing_write]
    by (simp add: demo_analyze_failing_write summery_row_of_fields)
  from 1 2 show ?thesis by simp
qed




text \<open>
  C3. The extracted text has at most 8000 code units, for every input. In a run of
  either function, every completion request ends in \<open>Content: \<close> followed by the text
  extracted from the page that was fetched, an analysis row is written only after a
  completion call, and the \<open>scraped_data\<close> of that row is the same extracted text.
  And the text is sent and stored: when the request passes the validation, the URL record
  is stored (respectively found), the prompt is found, the page is fetched and the API
  key is configured, the run calls the completion service with a single message that
  ends in \<open>Content: \<close> and the extracted text of that page; when the service answers,
  the run inserts an analysis row whose \<open>scraped_data\<close> is that same text, and the row
  the store creates is added to \<open>url_summery\<close>.
\<close>

theorem scraped_text_bounded_and_shared:
  "length (extractText html) \<le> 8000 \<and>
   (summerize_url e st req = (r, st', tr) \<or> process_url e st req = (r, st', tr) \<longrightarrow>
      (\<forall>row. StoreInsert ''url_summery'' row \<in> set tr \<longrightarrow>
         (\<exists>key rq. ChatCompletion key rq \<in> set tr)) \<and>
      (\<forall>key rq. ChatCompletion key rq \<in> set tr \<longrightarrow>
         (\<exists>u reply page pre.
            HttpGet u \<in> set tr \<and> http_get e u = Inr reply \<and> reply_text reply = Inr page \<and>
            length (extractText page) \<le> 8000 \<and>
            map content (messages rq) = [pre @ js ''Content: '' @ extractText page] \<and>
            (\<forall>row. StoreInsert ''url_summery'' row \<in> set tr \<longrightarrow>
               js_get row ''scraped_data'' = Str (extractText page))))) \<and>
   (summerize_url e st req = (r, st', tr) \<and>
    req_method req \<noteq> js ''OPTIONS'' \<and> req_json req = Inr b \<and>
    truthy (js_get b ''url'') \<and> truthy (js_get b ''prompt_id'') \<and>
    insert_urls e (url_row_of e (js_get b ''url'')) = Inr insertData \<and>
    select_single e ''prompts'' p_id (prompts st) (js_get b ''prompt_id'') = Inr promptData \<and>
    http_get e (js_get b ''url'') = Inr fetched \<and> reply_ok fetched \<and>
    reply_text fetched = Inr fetched_html \<and>
    configured_key e = Some openaiApiKey \<longrightarrow>
      (\<exists>rq. ChatCompletion openaiApiKey rq \<in> set tr \<and>
         map content (messages rq) =
           [p_prompt promptData @ js [CHR 0x0A, CHR 0x0A] @ js ''Website URL: '' @
            template e (js_get b ''url'') @ js [CHR 0x0A] @ js ''Content: '' @
            extractText fetched_html] \<and>
         (\<forall>aiResponse. ask_chatgpt e openaiApiKey rq = Inr aiResponse \<longrightarrow>
            (\<exists>row. StoreInsert ''url_summery'' row \<in> set tr \<and>
               js_get row ''scraped_data'' = Str (extractText fetched_html) \<and>
               js_get row ''ai_response'' = aiResponse \<and>
               (\<forall>summeryData. insert_url_summery e row = Inr summeryData \<longrightarrow>
                  url_summery st' = url_summery st @ [summeryData]))))) \<and>
   (process_url e st req = (r, st', tr) \<and>
    req_method req \<noteq> js ''OPTIONS'' \<and> req_json req = Inr b \<and>
    truthy (js_get b ''url_id'') \<and> truthy (js_get b ''prompt_id'') \<and>
    select_single e ''urls'' u_id (urls st) (js_get b ''url_id'') = Inr urlData \<and>
    select_single e ''prompts'' p_id (prompts st) (js_get b ''prompt_id'') = Inr promptData \<and>
    http_get e (Str (u_url urlData)) = Inr fetched \<and> reply_ok fetched \<and>
    reply_text fetched = Inr fetched_html \<and>
    configured_key e = Some openaiApiKey \<longrightarrow>
      (\<exists>rq. ChatCompletion openaiApiKey rq \<in> set tr \<and>
         map content (messages rq) =
           [p_prompt promptData @ js [CHR 0x0A, CHR 0x0A] @ js ''Website URL: '' @
            u_url urlData @ js [CHR 0x0A] @ js ''Content: '' @ extractText fetched_html] \<and>
         (\<forall>aiResponse. ask_chatgpt e openaiApiKey rq = Inr aiResponse \<longrightarrow>
            (\<exists>row. StoreInsert ''url_summery'' row \<in> set tr \<and>
               js_get row ''scraped_data'' = Str (extractText fetched_html) \<and>
               js_get row ''ai_response'' = aiResponse \<and>
               (\<forall>summeryData. insert_url_summery e row = Inr summeryData \<longrightarrow>
                  url_summery st' = url_summery st @ [summeryData])))))"
proof -
  have 1: "length (extractText html) \<le> 8000" by (rule length_extractText)
  have 2: "summerize_url e st req = (r, st', tr) \<or> process_url e st req = (r, st', tr) \<longrightarrow>
      (\<forall>row. StoreInsert ''url_summery'' row \<in> set tr \<longrightarrow>
         (\<exists>key rq. ChatCompletion key rq \<in> set tr)) \<and>
      (\<forall>key rq. ChatCompletion key rq \<in> set tr \<longrightarrow>
         (\<exists>u reply page pre.
            HttpGet u \<in> set tr \<and> http_get e u = Inr reply \<and> reply_text reply = Inr page \<and>
            length (extractText page) \<le> 8000 \<and>
            map content (messages rq) = [pre @ js ''Content: '' @ extractText page] \<and>
            (\<forall>row. StoreInsert ''url_summery'' row \<in> set tr \<longrightarrow>
               js_get row ''scraped_data'' = Str (extractText page))))"
  proof (intro conjI impI allI)
    fix row
    assume run: "summerize_url e st req = (r, st', tr) \<or> process_url e st req = (r, st', tr)"
      and ins: "StoreInsert ''url_summery'' row \<in> set tr"
    from run show "\<exists>key rq. ChatCompletion key rq \<in> set tr"
    proof
      assume "summerize_url e st req = (r, st', tr)"
      from summerize_url_persist [OF this ins] show ?thesis by blast
    next
      assume "process_url e st req = (r, st', tr)"
      from process_url_persist [OF this ins] show ?thesis by blast
    qed
  next
    fix key rq
    assume run: "summerize_url e st req = (r, st', tr) \<or> process_url e st req = (r, st', tr)"
      and c: "ChatCompletion key rq \<in> set tr"
    from run show "\<exists>u reply page pre.
              HttpGet u \<in> set tr \<and> http_get e u = Inr reply \<and> reply_text reply = Inr page \<and>
              length (extractText page) \<le> 8000 \<and>
              map content (messages rq) = [pre @ js ''Content: '' @ extractText page] \<and>
              (\<forall>row. StoreInsert ''url_summery'' row \<in> set tr \<longrightarrow>
                 js_get row ''scraped_data'' = Str (extractText page))"
    proof
      assume "summerize_url e st req = (r, st', tr)"
      from summerize_url_scraped [OF this c] obtain b and promptData :: prompt_row and scrapedText where
        s: "scrape e (js_get b ''url'') = Inr scrapedText"
        and h: "HttpGet (js_get b ''url'') \<in> set tr"
        and rq: "rq = chat_body (p_prompt promptData) (template e (js_get b ''url'')) scrapedText"
        and rows: "\<forall>row. StoreInsert ''url_summery'' row \<in> set tr \<longrightarrow>
            js_get row ''scraped_data'' = Str scrapedText"
        by blast
      from scrape_Inr [OF s] obtain reply page where
        "http_get e (js_get b ''url'') = Inr reply" "reply_text reply = Inr page"
        "scrapedText = extractText page"
        by blast
      with h rq rows have "HttpGet (js_get b ''url'') \<in> set tr \<and>
          http_get e (js_get b ''url'') = Inr reply \<and> reply_text reply = Inr page \<and>
          length (extractText page) \<le> 8000 \<and>
          map content (messages rq) =
            [(p_prompt promptData @ js [CHR 0x0A, CHR 0x0A] @ js ''Website URL: '' @
              template e (js_get b ''url'') @ js [CHR 0x0A]) @ js ''Content: '' @ extractText page] \<and>
          (\<forall>row. StoreInsert ''url_summery'' row \<in> set tr \<longrightarrow>
             js_get row ''scraped_data'' = Str (extractText page))"
        by (simp add: chat_body_def length_extractText)
      then show ?thesis
        apply -
        apply (intro exI)
        apply assumption
        done
    next
      assume "process_url e st req = (r, st', tr)"
      from process_url_scraped [OF this c] obtain urlData :: url_row and promptData :: prompt_row
        and scrapedText where
        s: "scrape e (Str (u_url urlData)) = Inr scrapedText"
        and h: "HttpGet (Str (u_url urlData)) \<in> set tr"
        and rq: "rq = chat_body (p_prompt promptData) (u_url urlData) scrapedText"
        and rows: "\<forall>row. StoreInsert ''url_summery'' row \<in> set tr \<longrightarrow>
            js_get row ''scraped_data'' = Str scrapedText"
        by blast
      from scrape_Inr [OF s] obtain reply page where
        "http_get e (Str (u_url urlData)) = Inr reply" "reply_text reply = Inr page"
        "scrapedText = extractText page"
        by blast
      with h rq rows have "HttpGet (Str (u_url urlData)) \<in> set tr \<and>
          http_get e (Str (u_url urlData)) = Inr reply \<and> reply_text reply = Inr page \<and>
          length (extractText page) \<le> 8000 \<and>
          map content (messages rq) =
            [(p_prompt promptData @ js [CHR 0x0A, CHR 0x0A] @ js ''Website URL: '' @
              u_url urlData @ js [CHR 0x0A]) @ js ''Content: '' @ extractText page] \<and>
          (\<forall>row. StoreInsert ''url_summery'' row \<in> set tr \<longrightarrow>
             js_get row ''scraped_data'' = Str (extractText page))"
        by (simp add: chat_body_def length_extractText)
      then show ?thesis
        apply -
        apply (intro exI)
        apply assumption
        done
    qed
  qed
  have 3: "summerize_url e st req = (r, st', tr) \<and>
    req_method req \<noteq> js ''OPTIONS'' \<and> req_json req = Inr b \<and>
    truthy (js_get b ''url'') \<and> truthy (js_get b ''prompt_id'') \<and>
    insert_urls e (url_row_of e (js_get b ''url'')) = Inr insertData \<and>
    select_single e ''prompts'' p_id (prompts st) (js_get b ''prompt_id'') = Inr promptData \<and>
    http_get e (js_get b ''url'') = Inr fetched \<and> reply_ok fetched \<and>
    reply_text fetched = Inr fetched_html \<and>
    configured_key e = Some openaiApiKey \<longrightarrow>
      (\<exists>rq. ChatCompletion openaiApiKey rq \<in> set tr \<and>
         map content (messages rq) =
           [p_prompt promptData @ js [CHR 0x0A, CHR 0x0A] @ js ''Website URL: '' @
            template e (js_get b ''url'') @ js [CHR 0x0A] @ js ''Content: '' @
            extractText fetched_html] \<and>
         (\<forall>aiResponse. ask_chatgpt e openaiApiKey rq = Inr aiResponse \<longrightarrow>
            (\<exists>row. StoreInsert ''url_summery'' row \<in> set tr \<and>
               js_get row ''scraped_data'' = Str (extractText fetched_html) \<and>
               js_get row ''ai_response'' = aiResponse \<and>
               (\<forall>summeryData. insert_url_summery e row = Inr summeryData \<longrightarrow>
                  url_summery st' = url_summery st @ [summeryData]))))"
  proof
    let ?rq = "chat_body (p_prompt promptData) (template e (js_get b ''url''))
        (extractText fetched_html)"
    assume a: "summerize_url e st req = (r, st', tr) \<and>
      req_method req \<noteq> js ''OPTIONS'' \<and> req_json req = Inr b \<and>
      truthy (js_get b ''url'') \<and> truthy (js_get b ''prompt_id'') \<and>
      insert_urls e (url_row_of e (js_get b ''url'')) = Inr insertData \<and>
      select_single e ''prompts'' p_id (prompts st) (js_get b ''prompt_id'') = Inr promptData \<and>
      http_get e (js_get b ''url'') = Inr fetched \<and> reply_ok fetched \<and>
      reply_text fetched = Inr fetched_html \<and>
      configured_key e = Some openaiApiKey"
    have s: "ChatCompletion openaiApiKey ?rq \<in> set tr \<and>
       (ask_chatgpt e openaiApiKey ?rq = Inr aiResponse \<longrightarrow>
        status r = 200 \<and>
        StoreInsert ''url_summery''
          (summery_row_of (Num (of_int (u_id insertData))) (js_get b ''prompt_id'')
             (extractText fetched_html) aiResponse) \<in> set tr \<and>
        (insert_url_summery e
           (summery_row_of (Num (of_int (u_id insertData))) (js_get b ''prompt_id'')
              (extractText fetched_html) aiResponse) = Inr summeryData \<longrightarrow>
           url_summery st' = url_summery st @ [summeryData]))" for aiResponse summeryData
    proof -
      from a have a1: "summerize_url e st req = (r, st', tr)"
        and a2: "req_method req \<noteq> js ''OPTIONS''" and a3: "req_json req = Inr b"
        and a4: "truthy (js_get b ''url'')" and a5: "truthy (js_get b ''prompt_id'')"
        and a6: "insert_urls e (url_row_of e (js_get b ''url'')) = Inr insertData"
        and a7: "select_single e ''prompts'' p_id (prompts st) (js_get b ''prompt_id'') = Inr promptData"
        and a8: "http_get e (js_get b ''url'') = Inr fetched" and a9: "reply_ok fetched"
        and a10: "reply_text fetched = Inr fetched_html"
        and a11: "configured_key e = Some openaiApiKey"
        by simp_all
      show ?thesis
        by (rule summerize_url_sends [OF a1 a2 a3 a4 a5 a6 a7 a8 a9 a10 a11])
    qed
    show "\<exists>rq. ChatCompletion openaiApiKey rq \<in> set tr \<and>
         map content (messages rq) =
           [p_prompt promptData @ js [CHR 0x0A, CHR 0x0A] @ js ''Website URL: '' @
            template e (js_get b ''url'') @ js [CHR 0x0A] @ js ''Content: '' @
            extractText fetched_html] \<and>
         (\<forall>aiResponse. ask_chatgpt e openaiApiKey rq = Inr aiResponse \<longrightarrow>
            (\<exists>row. StoreInsert ''url_summery'' row \<in> set tr \<and>
               js_get row ''scraped_data'' = Str (extractText fetched_html) \<and>
               js_get row ''ai_response'' = aiResponse \<and>
               (\<forall>summeryData. insert_url_summery e row = Inr summeryData \<longrightarrow>
                  url_summery st' = url_summery st @ [summeryData])))"
    proof (rule exI [of _ ?rq], intro conjI allI impI)
      show "ChatCompletion openaiApiKey ?rq \<in> set tr" by (rule s [THEN conjunct1])
      show "map content (messages ?rq) =
           [p_prompt promptData @ js [CHR 0x0A, CHR 0x0A] @ js ''Website URL: '' @
            template e (js_get b ''url'') @ js [CHR 0x0A] @ js ''Content: '' @
            extractText fetched_html]"
        by (simp add: chat_body_def)
      fix aiResponse
      assume ans: "ask_chatgpt e openaiApiKey ?rq = Inr aiResponse"
      let ?row = "summery_row_of (Num (of_int (u_id insertData))) (js_get b ''prompt_id'')
             (extractText fetched_html) aiResponse"
      have "StoreInsert ''url_summery'' ?row \<in> set tr \<and>
               js_get ?row ''scraped_data'' = Str (extractText fetched_html) \<and>
               js_get ?row ''ai_response'' = aiResponse \<and>
               (\<forall>summeryData. insert_url_summery e ?row = Inr summeryData \<longrightarrow>
                  url_summery st' = url_summery st @ [summeryData])"
      proof (intro conjI allI impI)
        show "StoreInsert ''url_summery'' ?row \<in> set tr"
          by (rule s [THEN conjunct2, THEN mp, OF ans, THEN conjunct2, THEN conjunct1])
        show "js_get ?row ''scraped_data'' = Str (extractText fetched_html)"
          by (rule summery_row_of_fields)
        show "js_get ?row ''ai_response'' = aiResponse"
          by (rule summery_row_of_fields)
        fix summeryData
        assume "insert_url_summery e ?row = Inr summeryData"
        then show "url_summery st' = url_summery st @ [summeryData]"
          by (rule s [THEN conjunct2, THEN mp, OF ans, THEN conjunct2, THEN conjunct2, THEN mp])
      qed
      then show "\<exists>row. StoreInsert ''url_summery'' row \<in> set tr \<and>
               js_get row ''scraped_data'' = Str (extractText fetched_html) \<and>
               js_get row ''ai_response'' = aiResponse \<and>
               (\<forall>summeryData. insert_url_summery e row = Inr summeryData \<longrightarrow>
                  url_summery st' = url_summery st @ [summeryData])"
        by - (rule exI, assumption)
    qed
  qed
  have 4: "process_url e st req = (r, st', tr) \<and>
    req_method req \<noteq> js ''OPTIONS'' \<and> req_json req = Inr b \<and>
    truthy (js_get b ''url_id'') \<and> truthy (js_get b ''prompt_id'') \<and>
    select_single e ''urls'' u_id (urls st) (js_get b ''url_id'') = Inr urlData \<and>
    select_single e ''prompts'' p_id (prompts st) (js_get b ''prompt_id'') = Inr promptData \<and>
    http_get e (Str (u_url urlData)) = Inr fetched \<and> reply_ok fetched \<and>
    reply_text fetched = Inr fetched_html \<and>
    configured_key e = Some openaiApiKey \<longrightarrow>
      (\<exists>rq. ChatCompletion openaiApiKey rq \<in> set tr \<and>
         map content (messages rq) =
           [p_prompt promptData @ js [CHR 0x0A, CHR 0x0A] @ js ''Website URL: '' @
            u_url urlData @ js [CHR 0x0A] @ js ''Content: '' @ extractText fetched_html] \<and>
         (\<forall>aiResponse. ask_chatgpt e openaiApiKey rq = Inr aiResponse \<longrightarrow>
            (\<exists>row. StoreInsert ''url_summery'' row \<in> set tr \<and>
               js_get row ''scraped_data'' = Str (extractText fetched_html) \<and>
               js_get row ''ai_response'' = aiResponse \<and>
               (\<forall>summeryData. insert_url_summery e row = Inr summeryData \<longrightarrow>
                  url_summery st' = url_summery st @ [summeryData]))))"
  proof
    let ?rq = "chat_body (p_prompt promptData) (u_url urlData) (extractText fetched_html)"
    assume a: "process_url e st req = (r, st', tr) \<and>
      req_method req \<noteq> js ''OPTIONS'' \<and> req_json req = Inr b \<and>
      truthy (js_get b ''url_id'') \<and> truthy (js_get b ''prompt_id'') \<and>
      select_single e ''urls'' u_id (urls st) (js_get b ''url_id'') = Inr urlData \<and>
      select_single e ''prompts'' p_id (prompts st) (js_get b ''prompt_id'') = Inr promptData \<and>
      http_get e (Str (u_url urlData)) = Inr fetched \<and> reply_ok fetched \<and>
      reply_text fetched = Inr fetched_html \<and>
      configured_key e = Some openaiApiKey"
    have s: "ChatCompletion openaiApiKey ?rq \<in> set tr \<and>
       (ask_chatgpt e openaiApiKey ?rq = Inr aiResponse \<longrightarrow>
        status r = 200 \<and>
        StoreInsert ''url_summery''
          (summery_row_of (js_get b ''url_id'') (js_get b ''prompt_id'')
             (extractText fetched_html) aiResponse) \<in> set tr \<and>
        (insert_url_summery e
           (summery_row_of (js_get b ''url_id'') (js_get b ''prompt_id'')
              (extractText fetched_html) aiResponse) = Inr summeryData \<longrightarrow>
           url_summery st' = url_summery st @ [summeryData]))" for aiResponse summeryData
    proof -
      from a have a1: "process_url e st req = (r, st', tr)"
        and a2: "req_method req \<noteq> js ''OPTIONS''" and a3: "req_json req = Inr b"
        and a4: "truthy (js_get b ''url_id'')" and a5: "truthy (js_get b ''prompt_id'')"
        and a6: "select_single e ''urls'' u_id (urls st) (js_get b ''url_id'') = Inr urlData"
        and a7: "select_single e ''prompts'' p_id (prompts st) (js_get b ''prompt_id'') = Inr promptData"
        and a8: "http_get e (Str (u_url urlData)) = Inr fetched" and a9: "reply_ok fetched"
        and a10: "reply_text fetched = Inr fetched_html"
        and a11: "configured_key e = Some openaiApiKey"
        by simp_all
      show ?thesis
        by (rule process_url_sends [OF a1 a2 a3 a4 a5 a6 a7 a8 a9 a10 a11])
    qed
    show "\<exists>rq. ChatCompletion openaiApiKey rq \<in> set tr \<and>
         map content (messages rq) =
           [p_prompt promptData @ js [CHR 0x0A, CHR 0x0A] @ js ''Website URL: '' @
            u_url urlData @ js [CHR 0x0A] @ js ''Content: '' @ extractText fetched_html] \<and>
         (\<forall>aiResponse. ask_chatgpt e openaiApiKey rq = Inr aiResponse \<longrightarrow>
            (\<exists>row. StoreInsert ''url_summery'' row \<in> set tr \<and>
               js_get row ''scraped_data'' = Str (extractText fetched_html) \<and>
               js_get row ''ai_response'' = aiResponse \<and>
               (\<forall>summeryData. insert_url_summery e row = Inr summeryData \<longrightarrow>
                  url_summery st' = url_summery st @ [summeryData])))"
    proof (rule exI [of _ ?rq], intro conjI allI impI)
      show "ChatCompletion openaiApiKey ?rq \<in> set tr" by (rule s [THEN conjunct1])
      show "map content (messages ?rq) =
           [p_prompt promptData @ js [CHR 0x0A, CHR 0x0A] @ js ''Website URL: '' @
            u_url urlData @ js [CHR 0x0A] @ js ''Content: '' @ extractText fetched_html]"
        by (simp add: chat_body_def)
      fix aiResponse
      assume ans: "ask_chatgpt e openaiApiKey ?rq = Inr aiResponse"
      let ?row = "summery_row_of (js_get b ''url_id'') (js_get b ''prompt_id'')
             (extractText fetched_html) aiResponse"
      have "StoreInsert ''url_summery'' ?row \<in> set tr \<and>
               js_get ?row ''scraped_data'' = Str (extractText fetched_html) \<and>
               js_get ?row ''ai_response'' = aiResponse \<and>
               (\<forall>summeryData. insert_url_summery e ?row = Inr summeryData \<longrightarrow>
                  url_summery st' = url_summery st @ [summeryData])"
      proof (intro conjI allI impI)
        show "StoreInsert ''url_summery'' ?row \<in> set tr"
          by (rule s [THEN conjunct2, THEN mp, OF ans, THEN conjunct2, THEN conjunct1])
        show "js_get ?row ''scraped_data'' = Str (extractText fetched_html)"
          by (rule summery_row_of_fields)
        show "js_get ?row ''ai_response'' = aiResponse"
          by (rule summery_row_of_fields)
        fix summeryData
        assume "insert_url_summery e ?row = Inr summeryData"
        then show "url_summery st' = url_summery st @ [summeryData]"
          by (rule s [THEN conjunct2, THEN mp, OF ans, THEN conjunct2, THEN conjunct2, THEN mp])
      qed
      then show "\<exists>row. StoreInsert ''url_summery'' row \<in> set tr \<and>
               js_get row ''scraped_data'' = Str (extractText fetched_html) \<and>
               js_get row ''ai_response'' = aiResponse \<and>
               (\<forall>summeryData. insert_url_summery e row = Inr summeryData \<longrightarrow>
                  url_summery st' = url_summery st @ [summeryData])"
        by - (rule exI, assumption)
    qed
  qed
  from 1 2 3 4 show ?thesis by (intro conjI)
qed

theorem scraped_text_bounded_and_shared_witness:
  "(\<exists>key rq row.
      ChatCompletion key rq \<in> set (snd (snd (summerize_url demo_env demo_store demo_ingest))) \<and>
      map content (messages rq) =
        [js ''Summarize this page.'' @ js [CHR 0x0A, CHR 0x0A] @ js ''Website URL: '' @
         js ''https://example.com'' @ js [CHR 0x0A] @ js ''Content: '' @ js ''Hello World''] \<and>
      StoreInsert ''url_summery'' row \<in>
        set (snd (snd (summerize_url demo_env demo_store demo_ingest))) \<and>
      js_get row ''scraped_data'' = Str (js ''Hello World'')) \<and>
   (\<exists>key rq row.
      ChatCompletion key rq \<in> set (snd (snd (process_url demo_env demo_store demo_analyze))) \<and>
      map content (messages rq) =
        [js ''Summarize this page.'' @ js [CHR 0x0A, CHR 0x0A] @ js ''Website URL: '' @
         js ''https://example.com'' @ js [CHR 0x0A] @ js ''Content: '' @ js ''Hello World''] \<and>
      StoreInsert ''url_summery'' row \<in>
        set (snd (snd (process_url demo_env demo_store demo_analyze))) \<and>
      js_get row ''scraped_data'' = Str (js ''Hello World''))"
proof
  let ?X = "summerize_url demo_env demo_store demo_ingest"
  let ?b = "Obj [(js ''url'', Str (js ''https://example.com'')), (js ''prompt_id'', Num 1)]"
  let ?html = "js ''<html><body><script>x</script>Hello <b>World</b></body></html>''"
  let ?ins = "\<lparr>u_id = 2, u_created_at = js ''2024-01-02T00:00:00+00:00'',
      u_url = js ''https://example.com'', u_caption = None\<rparr>"
  let ?prompt = "\<lparr>p_id = 1, p_created_at = js ''2024-01-01T00:00:00+00:00'',
      p_prompt_name = js ''General Summary'', p_prompt = js ''Summarize this page.'',
      p_description = None\<rparr>"
  have g1: "js_get ?b ''url'' = Str (js ''https://example.com'')" by (simp add: js_eq_iff)
  have g2: "js_get ?b ''prompt_id'' = Num 1" by (simp add: js_eq_iff)
  have h: "?X = (fst ?X, fst (snd ?X), snd (snd ?X)) \<and>
      req_method demo_ingest \<noteq> js ''OPTIONS'' \<and> req_json demo_ingest = Inr ?b \<and>
      truthy (js_get ?b ''url'') \<and> truthy (js_get ?b ''prompt_id'') \<and>
      insert_urls demo_env (url_row_of demo_env (js_get ?b ''url'')) = Inr ?ins \<and>
      select_single demo_env ''prompts'' p_id (prompts demo_store) (js_get ?b ''prompt_id'') =
        Inr ?prompt \<and>
      http_get demo_env (js_get ?b ''url'') = Inr demo_page \<and> reply_ok demo_page \<and>
      reply_text demo_page = Inr ?html \<and>
      configured_key demo_env = Some (js ''sk-test'')"
    unfolding g1 g2
    by (simp add: demo_ingest_def post_def js_eq_iff demo_env_def demo_store_def demo_page_def
          url_row_of_def select_single_def reply_ok_def configured_key_def)
       (simp add: js_def)
  from scraped_text_bounded_and_shared
    [THEN conjunct2, THEN conjunct2, THEN conjunct1, THEN mp, OF h]
  obtain rq where c: "ChatCompletion (js ''sk-test'') rq \<in> set (snd (snd ?X))"
    and msg: "map content (messages rq) =
        [p_prompt ?prompt @ js [CHR 0x0A, CHR 0x0A] @ js ''Website URL: '' @
         template demo_env (js_get ?b ''url'') @ js [CHR 0x0A] @ js ''Content: '' @
         extractText ?html]"
    and st: "\<forall>aiResponse. ask_chatgpt demo_env (js ''sk-test'') rq = Inr aiResponse \<longrightarrow>
        (\<exists>row. StoreInsert ''url_summery'' row \<in> set (snd (snd ?X)) \<and>
           js_get row ''scraped_data'' = Str (extractText ?html) \<and>
           js_get row ''ai_response'' = aiResponse \<and>
           (\<forall>summeryData. insert_url_summery demo_env row = Inr summeryData \<longrightarrow>
              url_summery (fst (snd ?X)) = url_summery demo_store @ [summeryData]))"
    by (elim exE conjE)
  from st [rule_format, OF demo_ask] obtain row where
    r: "StoreInsert ''url_summery'' row \<in> set (snd (snd ?X))"
    and d: "js_get row ''scraped_data'' = Str (extractText ?html)"
    by (elim exE conjE)
  have msg': "map content (messages rq) =
        [js ''Summarize this page.'' @ js [CHR 0x0A, CHR 0x0A] @ js ''Website URL: '' @
         js ''https://example.com'' @ js [CHR 0x0A] @ js ''Content: '' @ js ''Hello World'']"
    unfolding msg g1 demo_page_text by (simp add: template_def)
  from c msg' r d [unfolded demo_page_text]
  show "\<exists>key rq row.
      ChatCompletion key rq \<in> set (snd (snd ?X)) \<and>
      map content (messages rq) =
        [js ''Summarize this page.'' @ js [CHR 0x0A, CHR 0x0A] @ js ''Website URL: '' @
         js ''https://example.com'' @ js [CHR 0x0A] @ js ''Content: '' @ js ''Hello World''] \<and>
      StoreInsert ''url_summery'' row \<in> set (snd (snd ?X)) \<and>
      js_get row ''scraped_data'' = Str (js ''Hello World'')"
    by - (intro exI conjI, assumption+)
next
  let ?X = "process_url demo_env demo_store demo_analyze"
  let ?b = "Obj [(js ''url_id'', Num 1), (js ''prompt_id'', Num 1)]"
  let ?html = "js ''<html><body><script>x</script>Hello <b>World</b></body></html>''"
  let ?url = "\<lparr>u_id = 1, u_created_at = js ''2024-01-01T00:00:00+00:00'',
      u_url = js ''https://example.com'', u_caption = Some (js ''Example'')\<rparr>"
  let ?prompt = "\<lparr>p_id = 1, p_created_at = js ''2024-01-01T00:00:00+00:00'',
      p_prompt_name = js ''General Summary'', p_prompt = js ''Summarize this page.'',
      p_description = None\<rparr>"
  have g1: "js_get ?b ''url_id'' = Num 1" by (simp add: js_eq_iff)
  have g2: "js_get ?b ''prompt_id'' = Num 1" by (simp add: js_eq_iff)
  have h: "?X = (fst ?X, fst (snd ?X), snd (snd ?X)) \<and>
      req_method demo_analyze \<noteq> js ''OPTIONS'' \<and> req_json demo_analyze = Inr ?b \<and>
      truthy (js_get ?b ''url_id'') \<and> truthy (js_get ?b ''prompt_id'') \<and>
      select_single demo_env ''urls'' u_id (urls demo_store) (js_get ?b ''url_id'') = Inr ?url \<and>
      select_single demo_env ''prompts'' p_id (prompts demo_store) (js_get ?b ''prompt_id'') =
        Inr ?prompt \<and>
      http_get demo_env (Str (u_url ?url)) = Inr demo_page \<and> reply_ok demo_page \<and>
      reply_text demo_page = Inr ?html \<and>
      configured_key demo_env = Some (js ''sk-test'')"
    unfolding g1 g2
    by (simp add: demo_analyze_def post_def js_eq_iff demo_env_def demo_store_def demo_page_def
          select_single_def reply_ok_def configured_key_def)
       (simp add: js_def)
  from scraped_text_bounded_and_shared
    [THEN conjunct2, THEN conjunct2, THEN conjunct2, THEN mp, OF h]
  obtain rq where c: "ChatCompletion (js ''sk-test'') rq \<in> set (snd (snd ?X))"
    and msg: "map content (messages rq) =
        [p_prompt ?prompt @ js [CHR 0x0A, CHR 0x0A] @ js ''Website URL: '' @
         u_url ?url @ js [CHR 0x0A] @ js ''Content: '' @ extractText ?html]"
    and st: "\<forall>aiResponse. ask_chatgpt demo_env (js ''sk-test'') rq = Inr aiResponse \<longrightarrow>
        (\<exists>row. StoreInsert ''url_summery'' row \<in> set (snd (snd ?X)) \<and>
           js_get row ''scraped_data'' = Str (extractText ?html) \<and>
           js_get row ''ai_response'' = aiResponse \<and>
           (\<forall>summeryData. insert_url_summery demo_env row = Inr summeryData \<longrightarrow>
              url_summery (fst (snd ?X)) = url_summery demo_store @ [summeryData]))"
    by (elim exE conjE)
  from st [rule_format, OF demo_ask] obtain row where
    r: "StoreInsert ''url_summery'' row \<in> set (snd (snd ?X))"
    and d: "js_get row ''scraped_data'' = Str (extractText ?html)"
    by (elim exE conjE)
  have msg': "map content (messages rq) =
        [js ''Summarize this page.'' @ js [CHR 0x0A, CHR 0x0A] @ js ''Website URL: '' @
         js ''https://example.com'' @ js [CHR 0x0A] @ js ''Content: '' @ js ''Hello World'']"
    unfolding msg demo_page_text by simp
  from c msg' r d [unfolded demo_page_text]
  show "\<exists>key rq row.
      ChatCompletion key rq \<in> set (snd (snd ?X)) \<and>
      map content (messages rq) =
        [js ''Summarize this page.'' @ js [CHR 0x0A, CHR 0x0A] @ js ''Website URL: '' @
         js ''https://example.com'' @ js [CHR 0x0A] @ js ''Content: '' @ js ''Hello World''] \<and>
      StoreInsert ''url_summery'' row \<in> set (snd (snd ?X)) \<and>
      js_get row ''scraped_data'' = Str (js ''Hello World'')"
    by - (intro exI conjI, assumption+)
qed

text \<open>
  C7. Every request sent to the completion service, by either function, has the model
  \<open>gpt-3.5-turbo\<close>, \<open>max_tokens\<close> 500, \<open>temperature\<close> 0.7 and exactly one message, of role
  \<open>user\<close>, whose content is the text of a stored prompt, two line feeds,
  \<open>Website URL: \<close> and the URL (of the request, respectively of the stored record), a
  line feed, \<open>Content: \<close> and the text extracted from the fetched page.
\<close>

theorem completion_request_shape:
  assumes "ChatCompletion key rq \<in> set tr"
  shows
    "(summerize_url e st req = (r, st', tr) \<longrightarrow>
        (\<exists>b promptData reply page.
           req_json req = Inr b \<and> promptData \<in> set (prompts st) \<and>
           http_get e (js_get b ''url'') = Inr reply \<and> reply_text reply = Inr page \<and>
           rq = \<lparr>model = js ''gpt-3.5-turbo'',
                 messages =
                   [\<lparr>role = js ''user'',
                     content = p_prompt promptData @ js [CHR 0x0A, CHR 0x0A] @
                       js ''Website URL: '' @ template e (js_get b ''url'') @ js [CHR 0x0A] @
                       js ''Content: '' @ extractText page\<rparr>],
                 max_tokens = 500, temperature = 7 / 10\<rparr>)) \<and>
     (process_url e st req = (r, st', tr) \<longrightarrow>
        (\<exists>urlData promptData reply page.
           urlData \<in> set (urls st) \<and> promptData \<in> set (prompts st) \<and>
           http_get e (Str (u_url urlData)) = Inr reply \<and> reply_text reply = Inr page \<and>
           rq = \<lparr>model = js ''gpt-3.5-turbo'',
                 messages =
                   [\<lparr>role = js ''user'',
                     content = p_prompt promptData @ js [CHR 0x0A, CHR 0x0A] @
                       js ''Website URL: '' @ u_url urlData @ js [CHR 0x0A] @
                       js ''Content: '' @ extractText page\<rparr>],
                 max_tokens = 500, temperature = 7 / 10\<rparr>))"
proof (rule conjI; rule impI)
  assume run: "summerize_url e st req = (r, st', tr)"
  from summerize_url_completion [OF run assms] obtain b promptData scrapedText where
    b: "req_json req = Inr b"
    and p: "select_single e ''prompts'' p_id (prompts st) (js_get b ''prompt_id'') = Inr promptData"
    and s: "scrape e (js_get b ''url'') = Inr scrapedText"
    and rq: "rq = chat_body (p_prompt promptData) (template e (js_get b ''url'')) scrapedText"
    by blast
  from scrape_Inr [OF s] obtain reply page where
    "http_get e (js_get b ''url'') = Inr reply" "reply_text reply = Inr page"
    "scrapedText = extractText page"
    by blast
  with b rq select_single_Inr [OF p]
  show "\<exists>b promptData reply page.
           req_json req = Inr b \<and> promptData \<in> set (prompts st) \<and>
           http_get e (js_get b ''url'') = Inr reply \<and> reply_text reply = Inr page \<and>
           rq = \<lparr>model = js ''gpt-3.5-turbo'',
                 messages =
                   [\<lparr>role = js ''user'',
                     content = p_prompt promptData @ js [CHR 0x0A, CHR 0x0A] @
                       js ''Website URL: '' @ template e (js_get b ''url'') @ js [CHR 0x0A] @
                       js ''Content: '' @ extractText page\<rparr>],
                 max_tokens = 500, temperature = 7 / 10\<rparr>"
    by (auto simp: chat_body_def)
next
  assume run: "process_url e st req = (r, st', tr)"
  from process_url_completion [OF run assms] obtain b urlData promptData scrapedText where
    u: "select_single e ''urls'' u_id (urls st) (js_get b ''url_id'') = Inr urlData"
    and p: "select_single e ''prompts'' p_id (prompts st) (js_get b ''prompt_id'') = Inr promptData"
    and s: "scrape e (Str (u_url urlData)) = Inr scrapedText"
    and rq: "rq = chat_body (p_prompt promptData) (u_url urlData) scrapedText"
    by blast
  from scrape_Inr [OF s] obtain reply page where
    "http_get e (Str (u_url urlData)) = Inr reply" "reply_text reply = Inr page"
    "scrapedText = extractText page"
    by blast
  with rq select_single_Inr [OF p] select_single_Inr [OF u]
  show "\<exists>urlData promptData reply page.
           urlData \<in> set (urls st) \<and> promptData \<in> set (prompts st) \<and>
           http_get e (Str (u_url urlData)) = Inr reply \<and> reply_text reply = Inr page \<and>
           rq = \<lparr>model = js ''gpt-3.5-turbo'',
                 messages =
                   [\<lparr>role = js ''user'',
                     content = p_prompt promptData @ js [CHR 0x0A, CHR 0x0A] @
                       js ''Website URL: '' @ u_url urlData @ js [CHR 0x0A] @
                       js ''Content: '' @ extractText page\<rparr>],
                 max_tokens = 500, temperature = 7 / 10\<rparr>"
    by (auto simp: chat_body_def)
qed

theorem completion_request_shape_witness:
  "model (chat_body (js ''Summarize this page.'') (js ''https://example.com'') (js ''Hello World'')) =
     js ''gpt-3.5-turbo'' \<and>
   max_tokens (chat_body (js ''Summarize this page.'') (js ''https://example.com'')
     (js ''Hello World'')) = 500 \<and>
   temperature (chat_body (js ''Summarize this page.'') (js ''https://example.com'')
     (js ''Hello World'')) = 7 / 10 \<and>
   map role (messages (chat_body (js ''Summarize this page.'') (js ''https://example.com'')
     (js ''Hello World''))) = [js ''user'']"
proof -
  let ?rq = "chat_body (js ''Summarize this page.'') (js ''https://example.com'') (js ''Hello World'')"
  let ?tr = "[StoreInsert ''urls'' (url_row_of demo_env (Str (js ''https://example.com''))),
       StoreSelect ''prompts'' (Num 1),
       HttpGet (Str (js ''https://example.com'')),
       ChatCompletion (js ''sk-test'') ?rq,
       StoreInsert ''url_summery''
         (summery_row_of (Num 2) (Num 1) (js ''Hello World'') (Str (js ''A short page.''))),
       ConsoleError ''Failed to save to url_summery:'']"
  have m: "ChatCompletion (js ''sk-test'') ?rq \<in> set ?tr" by simp
  from completion_request_shape [OF m, THEN conjunct1, rule_format,
      OF demo_ingest_failing_write]
  obtain c where "?rq =
      \<lparr>model = js ''gpt-3.5-turbo'',
       messages = [\<lparr>role = js ''user'', content = c\<rparr>],
       max_tokens = 500, temperature = 7 / 10\<rparr>"
    by blast
  then show ?thesis by simp
qed

text \<open>
  C8, as the specification states it, fails: the placeholder replaces every falsy
  content, not only an absent one. The completion service answers 200 with a first
  choice whose message content is the empty string; the model output of both functions
  is the placeholder, not that content.
\<close>

theorem empty_content_gets_placeholder:
  "reply_status (demo_completion []) = 200 \<and>
   reply_json (demo_completion []) =
     Inr (Obj [(js ''choices'', Arr [Obj [(js ''message'', Obj [(js ''content'', Str [])])]])]) \<and>
   body_field (fst (process_url (demo_env_replying (demo_completion [])) demo_store demo_analyze))
     ''ai_response'' = Str (js ''No response generated'') \<and>
   body_field (fst (summerize_url (demo_env_replying (demo_completion [])) demo_store demo_ingest))
     ''summary'' = Str (js ''No response generated'')"
  by (simp add: demo_defs handler_defs text_defs)

text \<open>
  C8, amended. When the completion service answers with a 2xx status and a body that
  decodes to a value with a \<open>choices\<close> property (neither null nor undefined), the model
  output is the content of the first choice's message when that content is truthy, and
  the placeholder \<open>No response generated\<close> when it is absent or falsy; the run then goes
  on to the insert into \<open>url_summery\<close> and answers 200 with that output.
\<close>

theorem first_choice_or_placeholder:
  assumes "completion e key rq = Inr reply" and "reply_ok reply"
    and "reply_json reply = Inr data"
    and "\<not> nullish (js_get data ''choices'')"
    and "c = js_get_opt (js_get_opt (index0 (js_get data ''choices'')) ''message'') ''content''"
    and "out = (if truthy c then c else Str (js ''No response generated''))"
  shows "ask_chatgpt e key rq = Inr out \<and>
     (summerize_url e st req = (r, st', tr) \<and> ChatCompletion key rq \<in> set tr \<longrightarrow>
        status r = 200 \<and> body_field r ''summary'' = out \<and>
        (\<exists>row. StoreInsert ''url_summery'' row \<in> set tr \<and> js_get row ''ai_response'' = out)) \<and>
     (process_url e st req = (r, st', tr) \<and> ChatCompletion key rq \<in> set tr \<longrightarrow>
        status r = 200 \<and> body_field r ''ai_response'' = out \<and>
        (\<exists>row. StoreInsert ''url_summery'' row \<in> set tr \<and> js_get row ''ai_response'' = out))"
proof -
  have n: "\<not> nullish data" using assms(4) nullish_js_get by blast
  have a: "ask_chatgpt e key rq = Inr out"
    using assms n by (simp add: ask_chatgpt_def first_choice_content_def)
  show ?thesis
  proof (intro conjI impI)
    show "ask_chatgpt e key rq = Inr out" by (rule a)
  next
    assume h: "summerize_url e st req = (r, st', tr) \<and> ChatCompletion key rq \<in> set tr"
    then have run: "summerize_url e st req = (r, st', tr)"
      and c: "ChatCompletion key rq \<in> set tr" by simp_all
    from summerize_url_answered [OF run c a] obtain u p t where
      "StoreInsert ''url_summery'' (summery_row_of u p t out) \<in> set tr"
      "status r = 200" "body_field r ''summary'' = out"
      by blast
    moreover have "js_get (summery_row_of u p t out) ''ai_response'' = out"
      by (simp add: summery_row_of_fields)
    ultimately show "status r = 200" "body_field r ''summary'' = out"
      "\<exists>row. StoreInsert ''url_summery'' row \<in> set tr \<and> js_get row ''ai_response'' = out"
      by blast+
  next
    assume h: "process_url e st req = (r, st', tr) \<and> ChatCompletion key rq \<in> set tr"
    then have run: "process_url e st req = (r, st', tr)"
      and c: "ChatCompletion key rq \<in> set tr" by simp_all
    from process_url_answered [OF run c a] obtain u p t where
      "StoreInsert ''url_summery'' (summery_row_of u p t out) \<in> set tr"
      "status r = 200" "body_field r ''ai_response'' = out"
      by blast
    moreover have "js_get (summery_row_of u p t out) ''ai_response'' = out"
      by (simp add: summery_row_of_fields)
    ultimately show "status r = 200" "body_field r ''ai_response'' = out"
      "\<exists>row. StoreInsert ''url_summery'' row \<in> set tr \<and> js_get row ''ai_response'' = out"
      by blast+
  qed
qed

theorem first_choice_or_placeholder_witness:
  "ask_chatgpt demo_env (js ''sk-test'') (chat_body [] [] []) = Inr (Str (js ''A short page.'')) \<and>
   ask_chatgpt (demo_env_replying (demo_completion [])) (js ''sk-test'') (chat_body [] [] []) =
     Inr (Str (js ''No response generated''))"
proof -
  have c1: "completion demo_env (js ''sk-test'') (chat_body [] [] []) =
      Inr (demo_completion (js ''A short page.''))"
    by (simp add: demo_env_def)
  have c2: "completion (demo_env_replying (demo_completion [])) (js ''sk-test'')
      (chat_body [] [] []) = Inr (demo_completion [])"
    by (simp add: demo_env_replying_def)
  have ok: "reply_ok (demo_completion t)" for t
    by (simp add: reply_ok_def demo_completion_def)
  have j: "reply_json (demo_completion t) =
      Inr (Obj [(js ''choices'', Arr [Obj [(js ''message'', Obj [(js ''content'', Str t)])]])])"
    for t
    by (simp add: demo_completion_def)
  have n: "\<not> nullish (js_get
      (Obj [(js ''choices'', Arr [Obj [(js ''message'', Obj [(js ''content'', Str t)])]])])
      ''choices'')" for t
    by (simp add: nullish_def)
  have v: "Str t = js_get_opt (js_get_opt (index0 (js_get
      (Obj [(js ''choices'', Arr [Obj [(js ''message'', Obj [(js ''content'', Str t)])]])])
      ''choices'')) ''message'') ''content''" for t
    by (simp add: nullish_def js_get_opt_def)
  have o1: "Str (js ''A short page.'') =
      (if truthy (Str (js ''A short page.'')) then Str (js ''A short page.'')
       else Str (js ''No response generated''))"
    by (simp add: js_def)
  have o2: "Str (js ''No response generated'') =
      (if truthy (Str []) then Str [] else Str (js ''No response generated''))"
    by simp
  from first_choice_or_placeholder [OF c1 ok j n v o1, THEN conjunct1]
       first_choice_or_placeholder [OF c2 ok j n v o2, THEN conjunct1]
  show ?thesis by (rule conjI)
qed

text \<open>
  A body without \<open>choices\<close> is outside the amended claim: reading index 0 of an
  undefined value throws, and the run ends in the error response.
\<close>

lemma missing_choices_fails:
  "status (fst (process_url
     (demo_env_replying
        \<lparr>reply_status = 200, reply_statusText = js ''OK'', reply_text = Inr (js ''{}''),
         reply_json = Inr (Obj [])\<rparr>)
     demo_store demo_analyze)) = 500"
  by (simp add: demo_defs handler_defs text_defs)

end
